theory Spec2Isabelle
  imports Complex_Main
begin

section \<open>Values of the engine\<close>

text \<open>
  The functions of \<^verbatim>\<open>lib/api.ts\<close> work on what \<^verbatim>\<open>JSON.parse\<close> hands them: the
  interfaces of the file are erased at run time, so a field declared \<^verbatim>\<open>string\<close> holds
  whatever the upstream service sent. The model therefore keeps the dynamic values.

  A number is a double: \<open>Fin q\<close> is the finite double of value \<open>q\<close>, beside the three
  special values. Every number the program computes from a text goes through
  \<open>to_double\<close> below, which rounds to the nearest double. The two zeros are one value
  (both are falsy, so no branch of the source tells them apart).

  A string is the list of its UTF-16 code units, restricted to units below 256.
\<close>

datatype jsnum = NaN | PosInf | NegInf | Fin rat

datatype js =
    Undefined
  | Null
  | Bool bool
  | Num jsnum
  | Str string
  | Arr "js list"
  | Obj "(string \<times> js) list"

datatype error =
    Error string          \<comment> \<open>\<^verbatim>\<open>new Error(message)\<close>\<close>
  | TypeError             \<comment> \<open>property read on null or undefined, call of a non-function\<close>
  | NetworkError          \<comment> \<open>\<^verbatim>\<open>fetch\<close> rejected\<close>
  | BodyError             \<comment> \<open>reading a response body rejected\<close>
  | SyntaxError           \<comment> \<open>\<^verbatim>\<open>JSON.parse\<close> or \<^verbatim>\<open>response.json()\<close> on malformed text\<close>

text \<open>ToBoolean.\<close>

fun truthy :: "js \<Rightarrow> bool" where
  "truthy Undefined = False"
| "truthy Null = False"
| "truthy (Bool b) = b"
| "truthy (Num n) = (n \<noteq> NaN \<and> n \<noteq> Fin 0)"
| "truthy (Str s) = (s \<noteq> [])"
| "truthy (Arr xs) = True"
| "truthy (Obj kvs) = True"

text \<open>
  \<^verbatim>\<open>value.key\<close> for the keys the file reads. Reading a property of \<^verbatim>\<open>null\<close> or
  \<^verbatim>\<open>undefined\<close> throws; an object answers with its own binding (the first one of the
  association list; a parsed object has each key once); arrays and strings own
  \<^verbatim>\<open>length\<close>; every other read is \<^verbatim>\<open>undefined\<close>.
\<close>

fun get_prop :: "js \<Rightarrow> string \<Rightarrow> error + js" where
  "get_prop Undefined k = Inl TypeError"
| "get_prop Null k = Inl TypeError"
| "get_prop (Obj kvs) k = Inr (case map_of kvs k of None \<Rightarrow> Undefined | Some v \<Rightarrow> v)"
| "get_prop (Arr xs) k = Inr (if k = ''length'' then Num (Fin (of_nat (length xs))) else Undefined)"
| "get_prop (Str s) k = Inr (if k = ''length'' then Num (Fin (of_nat (length s))) else Undefined)"
| "get_prop (Bool b) k = Inr Undefined"
| "get_prop (Num n) k = Inr Undefined"

text \<open>\<^verbatim>\<open>value?.key\<close>: short-circuits to \<^verbatim>\<open>undefined\<close> on a nullish base.\<close>

definition opt_prop :: "js \<Rightarrow> string \<Rightarrow> js" where
  "opt_prop v k = (case get_prop v k of Inl e \<Rightarrow> Undefined | Inr w \<Rightarrow> w)"

section \<open>Strings\<close>

definition is_ws :: "char \<Rightarrow> bool" where
  "is_ws c = (of_char c \<in> {9, 10, 11, 12, 13, 32, 160 :: nat})"

definition is_digit :: "char \<Rightarrow> bool" where
  "is_digit c = (48 \<le> (of_char c :: nat) \<and> (of_char c :: nat) \<le> 57)"

definition trim :: "string \<Rightarrow> string" where
  "trim s = rev (dropWhile is_ws (rev (dropWhile is_ws s)))"

definition lower_char :: "char \<Rightarrow> char" where
  "lower_char c =
     (let n = (of_char c :: nat)
      in if (65 \<le> n \<and> n \<le> 90) \<or> (192 \<le> n \<and> n \<le> 222 \<and> n \<noteq> 215)
         then char_of (n + 32) else c)"

definition toLowerCase :: "string \<Rightarrow> string" where
  "toLowerCase s = map lower_char s"

definition startsWith :: "string \<Rightarrow> string \<Rightarrow> bool" where
  "startsWith s pat = (take (length pat) s = pat)"

fun includes_str :: "string \<Rightarrow> string \<Rightarrow> bool" where
  "includes_str [] pat = (pat = [])"
| "includes_str (c # cs) pat = (startsWith (c # cs) pat \<or> includes_str cs pat)"

text \<open>
  \<^verbatim>\<open>s.replace(pat, rep)\<close> with a string pattern: the first occurrence only. (The
  replacement of the source is the empty string, so the \<^verbatim>\<open>$\<close>-patterns of a
  replacement text do not arise.)
\<close>

fun replace :: "string \<Rightarrow> string \<Rightarrow> string \<Rightarrow> string" where
  "replace [] pat rep = (if pat = [] then rep else [])"
| "replace (c # cs) pat rep =
     (if startsWith (c # cs) pat then rep @ drop (length pat) (c # cs)
      else c # replace cs pat rep)"

definition digits_val :: "string \<Rightarrow> nat" where
  "digits_val ds = foldl (\<lambda>a c. 10 * a + (of_char c - 48)) 0 ds"

text \<open>Decimal text of a natural number, as a template literal prints an integer.\<close>

definition digit_char :: "nat \<Rightarrow> char" where
  "digit_char d = ''0123456789'' ! d"

function decimal :: "nat \<Rightarrow> string" where
  "decimal n =
     (if n < 10 then [digit_char n]
      else decimal (n div 10) @ [digit_char (n mod 10)])"
  by pat_completeness auto
termination
  by (relation "measure id") auto

text \<open>
  The exponent part of a decimal literal: \<^verbatim>\<open>e\<close> or \<^verbatim>\<open>E\<close>, an optional sign, and at
  least one digit; anything else is not part of the number.
\<close>

definition exponent_part :: "string \<Rightarrow> int" where
  "exponent_part r =
     (case r of
        [] \<Rightarrow> 0
      | c # rest \<Rightarrow>
          if c = CHR ''e'' \<or> c = CHR ''E'' then
            (let neg = (case rest of [] \<Rightarrow> False | d # _ \<Rightarrow> d = CHR ''-'');
                 ds = (case rest of [] \<Rightarrow> []
                        | d # ds' \<Rightarrow> if d = CHR ''-'' \<or> d = CHR ''+'' then ds' else rest);
                 n = takeWhile is_digit ds
             in if n = [] then 0
                else if neg then - int (digits_val n) else int (digits_val n))
          else 0)"

text \<open>
  The double nearest to a rational, as the engine converts the value of a decimal text:
  round to nearest, ties to even, on the grid of the binade of the value (exponents
  from \<open>-1022\<close>, where the subnormal grid \<open>2 powi -1074\<close> starts, to \<open>1023\<close>). A
  result of \<open>2 powi 1024\<close> or more is infinite; a value below half the smallest
  subnormal becomes zero.
\<close>

definition round_half_even :: "rat \<Rightarrow> int" where
  "round_half_even x =
     (let f = \<lfloor>x\<rfloor>; d = x - of_int f
      in if d < 1 / 2 then f else if 1 / 2 < d then f + 1
         else if even f then f else f + 1)"

text \<open>The exponent \<open>e\<close> with \<open>2 powi e \<le> a < 2 powi (e + 1)\<close>, searched upwards from \<open>e\<close>.\<close>

fun binade_from :: "nat \<Rightarrow> int \<Rightarrow> rat \<Rightarrow> int" where
  "binade_from 0 e a = e"
| "binade_from (Suc n) e a = (if 2 powi (e + 1) \<le> a then binade_from n (e + 1) a else e)"

definition to_double :: "rat \<Rightarrow> jsnum" where
  "to_double q =
     (let a = \<bar>q\<bar>;
          e = binade_from 2045 (- 1022) a;
          ulp = 2 powi (e - 52);
          v = of_int (round_half_even (a / ulp)) * ulp
      in if 2 powi 1024 \<le> v then (if q < 0 then NegInf else PosInf)
         else Fin (if q < 0 then - v else v))"

text \<open>
  \<^verbatim>\<open>parseFloat\<close>: leading white space is skipped, then the longest prefix that is a
  decimal literal (sign, \<^verbatim>\<open>Infinity\<close> or digits with an optional fraction and
  exponent) is read and its value converted to a double; when there is no such prefix
  the result is \<^verbatim>\<open>NaN\<close>.
\<close>

definition parseFloat :: "string \<Rightarrow> jsnum" where
  "parseFloat input =
     (let t = dropWhile is_ws input;
          neg = (case t of [] \<Rightarrow> False | c # _ \<Rightarrow> c = CHR ''-'');
          u = (case t of [] \<Rightarrow> []
                | c # cs \<Rightarrow> if c = CHR ''-'' \<or> c = CHR ''+'' then cs else t)
      in if startsWith u ''Infinity'' then (if neg then NegInf else PosInf)
         else
           (let ip = takeWhile is_digit u;
                r1 = dropWhile is_digit u;
                hasdot = (case r1 of [] \<Rightarrow> False | c # _ \<Rightarrow> c = CHR ''.'');
                fp = (if hasdot then takeWhile is_digit (tl r1) else []);
                r2 = (if hasdot then dropWhile is_digit (tl r1) else r1)
            in if ip = [] \<and> fp = [] then NaN
               else
                 (let m = (of_nat (digits_val (ip @ fp)) :: rat) / 10 ^ length fp;
                      e = exponent_part r2;
                      v = (if 0 \<le> e then m * 10 ^ nat e else m / 10 ^ nat (- e))
                  in to_double (if neg then - v else v))))"

section \<open>The response normalizer\<close>

text \<open>The \<^verbatim>\<open>Product\<close> interface. A field copied from the input keeps its dynamic value.\<close>

record Product =
  id_field :: js
  name :: js
  price :: jsnum
  description :: string
  image_field :: js
  category :: string
  inStock :: bool
  asin :: js

definition placeholder_image :: "nat \<Rightarrow> string" where
  "placeholder_image index =
     ''https://images.pexels.com/photos/'' @ decimal (3825572 + index) @
     ''/pexels-photo-'' @ decimal (3825572 + index) @
     ''.jpeg?auto=compress&cs=tinysrgb&w=800''"

text \<open>
  \<^verbatim>\<open>cond ? cond.method(...) : dflt\<close> on a field: a falsy field takes the default, a
  string has the method, any other truthy value has not and the call throws.
\<close>

definition priceString :: "js \<Rightarrow> error + string" where
  "priceString pp =
     (if truthy pp then (case pp of Str s \<Rightarrow> Inr (replace s ''$'' []) | _ \<Rightarrow> Inl TypeError)
      else Inr ''0'')"

definition or_zero :: "jsnum \<Rightarrow> jsnum" where
  "or_zero n = (if n = NaN \<or> n = Fin 0 then Fin 0 else n)"

definition availability_inStock :: "js \<Rightarrow> error + bool" where
  "availability_inStock pa =
     (if truthy pa then
        (case pa of Str s \<Rightarrow> Inr (\<not> includes_str (toLowerCase s) ''out of stock'')
         | _ \<Rightarrow> Inl TypeError)
      else Inr True)"

text \<open>The callback of \<^verbatim>\<open>amazonProducts.map\<close>, for the element at \<open>index\<close>.\<close>

definition convertProduct :: "js \<Rightarrow> nat \<Rightarrow> error + Product" where
  "convertProduct amazonProduct index =
     (case get_prop amazonProduct ''product_price'' of
        Inl e \<Rightarrow> Inl e
      | Inr pp \<Rightarrow>
          (case priceString pp of
             Inl e \<Rightarrow> Inl e
           | Inr ps \<Rightarrow>
               (case availability_inStock (opt_prop amazonProduct ''product_availability'') of
                  Inl e \<Rightarrow> Inl e
                | Inr stock \<Rightarrow>
                    Inr \<lparr> id_field = opt_prop amazonProduct ''asin'',
                          name = (let t = opt_prop amazonProduct ''product_title''
                                  in if truthy t then t
                                     else Str (''Product '' @ decimal (index + 1))),
                          price = or_zero (parseFloat ps),
                          description = ''No description available'',
                          image_field = (let ph = opt_prop amazonProduct ''product_photo''
                                         in if truthy ph then ph
                                            else Str (placeholder_image index)),
                          category = ''General'',
                          inStock = stock,
                          asin = opt_prop amazonProduct ''asin'' \<rparr>)))"

fun convert_from :: "nat \<Rightarrow> js list \<Rightarrow> error + Product list" where
  "convert_from index [] = Inr []"
| "convert_from index (p # ps) =
     (case convertProduct p index of
        Inl e \<Rightarrow> Inl e
      | Inr q \<Rightarrow>
          (case convert_from (Suc index) ps of
             Inl e \<Rightarrow> Inl e
           | Inr qs \<Rightarrow> Inr (q # qs)))"

text \<open>
  \<^verbatim>\<open>convertAmazonDataToProducts\<close>. Only an array has \<^verbatim>\<open>map\<close>: on any other value
  the call (or, on a nullish one, the read of \<^verbatim>\<open>length\<close> before it) throws.
\<close>

definition convertAmazonDataToProducts :: "js \<Rightarrow> error + Product list" where
  "convertAmazonDataToProducts amazonProducts =
     (case amazonProducts of Arr ps \<Rightarrow> convert_from 0 ps | _ \<Rightarrow> Inl TypeError)"

section \<open>The world outside\<close>

text \<open>
  A request as \<^verbatim>\<open>fetch\<close> receives it. The body is the value handed to
  \<^verbatim>\<open>JSON.stringify\<close> (a field that is \<^verbatim>\<open>undefined\<close> is left out by it).
\<close>

record request =
  req_url :: string
  req_method :: string
  req_headers :: "(string \<times> string) list"
  req_body :: "js option"

text \<open>A response: \<open>resp_body = None\<close> when reading the body rejects.\<close>

record response =
  resp_status :: nat
  resp_statusText :: string
  resp_body :: "string option"

datatype fetch_result = Rejected | Resolved response

definition resp_ok :: "response \<Rightarrow> bool" where
  "resp_ok r = (200 \<le> resp_status r \<and> resp_status r \<le> 299)"

text \<open>
  The global \<^verbatim>\<open>caches\<close>: not defined in the runtime, defined with operations that
  throw, or defined and working.
\<close>

datatype caches_status = CachesUndefined | CachesThrowing | CachesWorking

text \<open>
  What the program cannot decide: the environment variable, the cache substrate, the
  answers of the network, the engine's \<^verbatim>\<open>JSON.parse\<close> (\<open>None\<close> when it throws) and
  the value of \<^verbatim>\<open>crypto.randomUUID()\<close>.
\<close>

record env =
  NEXT_PUBLIC_API_BASE_URL :: "string option"
  caches_api :: caches_status
  network :: "request \<Rightarrow> fetch_result"
  JSON_parse :: "string \<Rightarrow> js option"
  randomUUID :: string

text \<open>The object \<^verbatim>\<open>cacheToken\<close> writes, the only entry the cache ever receives.\<close>

record cacheData =
  token :: string
  expires :: int

datatype event =
    Fetch request
  | CacheMatch string
  | CachePut string cacheData

text \<open>
  What the program changes or reads as it runs: \<^verbatim>\<open>Date.now()\<close> in milliseconds, the
  entries of the cache \<^verbatim>\<open>guest-token-cache\<close> by request URL, and the calls made to
  the outside so far, oldest first.
\<close>

record state =
  clock :: int
  cache :: "string \<rightharpoonup> cacheData"
  trace :: "event list"

definition API_BASE_URL :: "env \<Rightarrow> string" where
  "API_BASE_URL e =
     (case NEXT_PUBLIC_API_BASE_URL e of
        None \<Rightarrow> ''https://api.trulyfreehome.dev''
      | Some u \<Rightarrow> if u = [] then ''https://api.trulyfreehome.dev'' else u)"

definition IP_API_URL :: string where
  "IP_API_URL = ''https://api.ipify.org/?format=json''"

definition GUEST_TOKEN_CACHE_KEY :: string where
  "GUEST_TOKEN_CACHE_KEY = ''tfh-guest-token''"

definition GUEST_TOKEN_TTL :: int where
  "GUEST_TOKEN_TTL = 600"

definition isCachesAPIAvailable :: "env \<Rightarrow> bool" where
  "isCachesAPIAvailable e = (caches_api e \<noteq> CachesUndefined)"

definition cacheRequest :: "env \<Rightarrow> string" where
  "cacheRequest e = API_BASE_URL e @ ''/cache/'' @ GUEST_TOKEN_CACHE_KEY"

definition log_event :: "event \<Rightarrow> state \<Rightarrow> state" where
  "log_event ev s = s\<lparr>trace := trace s @ [ev]\<rparr>"

definition do_fetch :: "env \<Rightarrow> request \<Rightarrow> state \<Rightarrow> fetch_result \<times> state" where
  "do_fetch e req s = (network e req, log_event (Fetch req) s)"

definition response_text :: "response \<Rightarrow> string" where
  "response_text r = (case resp_body r of None \<Rightarrow> [] | Some t \<Rightarrow> t)"

section \<open>Token cache\<close>

text \<open>
  \<^verbatim>\<open>getCachedToken\<close>: \<open>None\<close> is \<^verbatim>\<open>null\<close>. An exception of the cache is caught and
  ends in \<^verbatim>\<open>null\<close> too.
\<close>

definition getCachedToken :: "env \<Rightarrow> state \<Rightarrow> string option \<times> state" where
  "getCachedToken e s =
     (if \<not> isCachesAPIAvailable e then (None, s)
      else if caches_api e = CachesThrowing then (None, s)
      else
        (let s' = log_event (CacheMatch (cacheRequest e)) s
         in case cache s (cacheRequest e) of
              None \<Rightarrow> (None, s')
            | Some cachedData \<Rightarrow>
                if token cachedData \<noteq> [] \<and> expires cachedData > clock s
                then (Some (token cachedData), s')
                else (None, s')))"

definition cacheToken :: "env \<Rightarrow> string \<Rightarrow> state \<Rightarrow> state" where
  "cacheToken e tok s =
     (if \<not> isCachesAPIAvailable e then s
      else if caches_api e = CachesThrowing then s
      else
        (let cacheData = \<lparr> token = tok, expires = clock s + GUEST_TOKEN_TTL * 1000 \<rparr>
         in log_event (CachePut (cacheRequest e) cacheData)
              (s\<lparr>cache := (cache s)(cacheRequest e \<mapsto> cacheData)\<rparr>)))"

section \<open>IP resolver\<close>

definition ipRequest :: request where
  "ipRequest =
     \<lparr> req_url = IP_API_URL,
       req_method = ''GET'',
       req_headers = [(''accept'', ''application/json, text/plain, */*''),
                      (''accept-language'', ''en-GB,en-US;q=0.9,en;q=0.8'')],
       req_body = None \<rparr>"

definition fallbackIP :: js where
  "fallbackIP = Str ''152.59.204.243''"

text \<open>
  The body of the \<^verbatim>\<open>try\<close> block of \<^verbatim>\<open>getUserIP\<close>, from the outcome of the call.
\<close>

definition userIP_try :: "env \<Rightarrow> fetch_result \<Rightarrow> error + js" where
  "userIP_try e fr =
     (case fr of
        Rejected \<Rightarrow> Inl NetworkError
      | Resolved response \<Rightarrow>
          if \<not> resp_ok response
          then Inl (Error (''Failed to fetch IP: '' @ decimal (resp_status response)))
          else
            (case resp_body response of
               None \<Rightarrow> Inl BodyError
             | Some t \<Rightarrow>
                 (case JSON_parse e t of
                    None \<Rightarrow> Inl SyntaxError
                  | Some data \<Rightarrow> get_prop data ''ip'')))"

text \<open>
  \<^verbatim>\<open>getUserIP\<close>: the \<^verbatim>\<open>catch\<close> turns every exception into the fallback, so the
  result is never the left injection.
\<close>

definition getUserIP :: "env \<Rightarrow> state \<Rightarrow> (error + js) \<times> state" where
  "getUserIP e s =
     (case do_fetch e ipRequest s of
        (fr, s') \<Rightarrow>
          (case userIP_try e fr of
             Inl err \<Rightarrow> (Inr fallbackIP, s')
           | Inr ip \<Rightarrow> (Inr ip, s')))"

section \<open>Guest authenticator\<close>

definition int_toString :: "int \<Rightarrow> string" where
  "int_toString i = (if i < 0 then ''-'' @ decimal (nat (- i)) else decimal (nat i))"

definition tokenUrl :: "env \<Rightarrow> string" where
  "tokenUrl e = API_BASE_URL e @ ''/v1/guest/signIn''"

definition guestTokenRequest :: "env \<Rightarrow> js \<Rightarrow> int \<Rightarrow> request" where
  "guestTokenRequest e ipAddress now =
     \<lparr> req_url = tokenUrl e,
       req_method = ''POST'',
       req_headers = [(''accept'', ''application/json, text/plain, */*''),
                      (''accept-language'', ''en-GB,en-US;q=0.9,en;q=0.8''),
                      (''content-type'', ''application/json''),
                      (''currencycode'', ''INR''),
                      (''currencysymbol'', ''4oK5''),
                      (''language'', ''en''),
                      (''platform'', ''3'')],
       req_body = Some (Obj
         [(''deviceId'', Str (randomUUID e)),
          (''ipAddress'', ipAddress),
          (''appVersion'', Str ''1.0.0''),
          (''deviceMake'', Str ''Google Inc.''),
          (''deviceModel'', Str ''MacIntel 1470x956''),
          (''deviceOsVersion'', Str ''Mozilla/5.0 (Macintosh; Intel Mac OS X 10_15_7) AppleWebKit/537.36 (KHTML, like Gecko) Chrome/137.0.0.0 Safari/537.36''),
          (''deviceType'', Num (Fin 3)),
          (''deviceTime'', Str (int_toString now))]) \<rparr>"

text \<open>\<^verbatim>\<open>data.data?.token?.accessToken\<close>: only the first read can throw.\<close>

definition accessToken_of :: "js \<Rightarrow> error + js" where
  "accessToken_of data =
     (case get_prop data ''data'' of
        Inl err \<Rightarrow> Inl err
      | Inr d \<Rightarrow> Inr (opt_prop (opt_prop d ''token'') ''accessToken''))"

text \<open>
  From the response of the exchange to the token, with the exceptions thrown inside the
  \<^verbatim>\<open>try\<close> block. The last case is \<^verbatim>\<open>accessToken.substring(0, 20)\<close> on a truthy value
  that is not a string.
\<close>

definition token_of_response :: "env \<Rightarrow> response \<Rightarrow> error + string" where
  "token_of_response e response =
     (if \<not> resp_ok response
      then Inl (Error (''Failed to fetch guest token: '' @ decimal (resp_status response)
                        @ '' '' @ resp_statusText response))
      else
        (case JSON_parse e (response_text response) of
           None \<Rightarrow> Inl (Error ''Invalid JSON response from guest token API'')
         | Some data \<Rightarrow>
             (case accessToken_of data of
                Inl err \<Rightarrow> Inl err
              | Inr accessToken \<Rightarrow>
                  if \<not> truthy accessToken
                  then Inl (Error ''Invalid guest token response: missing accessToken'')
                  else (case accessToken of Str tok \<Rightarrow> Inr tok | _ \<Rightarrow> Inl TypeError))))"

definition getGuestToken_try :: "env \<Rightarrow> state \<Rightarrow> (error + string) \<times> state" where
  "getGuestToken_try e s =
     (case getCachedToken e s of
        (cachedToken, s1) \<Rightarrow>
          if cachedToken \<noteq> None \<and> the cachedToken \<noteq> [] then (Inr (the cachedToken), s1)
          else
            (case getUserIP e s1 of
               (Inl err, s2) \<Rightarrow> (Inl err, s2)
             | (Inr ipAddress, s2) \<Rightarrow>
                 (case do_fetch e (guestTokenRequest e ipAddress (clock s2)) s2 of
                    (Rejected, s3) \<Rightarrow> (Inl NetworkError, s3)
                  | (Resolved response, s3) \<Rightarrow>
                      (case token_of_response e response of
                         Inl err \<Rightarrow> (Inl err, s3)
                       | Inr tok \<Rightarrow> (Inr tok, cacheToken e tok s3)))))"

text \<open>\<^verbatim>\<open>getGuestToken\<close>: the outer \<^verbatim>\<open>catch\<close> replaces whatever was thrown.\<close>

definition getGuestToken :: "env \<Rightarrow> state \<Rightarrow> (error + string) \<times> state" where
  "getGuestToken e s =
     (case getGuestToken_try e s of
        (Inl err, s') \<Rightarrow> (Inl (Error ''Failed to authenticate with API''), s')
      | (Inr tok, s') \<Rightarrow> (Inr tok, s'))"

section \<open>Seller and catalog fetcher\<close>

definition then_do :: "error + 'a \<Rightarrow> ('a \<Rightarrow> error + 'b) \<Rightarrow> error + 'b" where
  "then_do m f = (case m of Inl err \<Rightarrow> Inl err | Inr x \<Rightarrow> f x)"

fun isArray :: "js \<Rightarrow> bool" where
  "isArray (Arr xs) = True"
| "isArray v = False"

text \<open>\<^verbatim>\<open>value[0]\<close>.\<close>

fun elem0 :: "js \<Rightarrow> error + js" where
  "elem0 Undefined = Inl TypeError"
| "elem0 Null = Inl TypeError"
| "elem0 (Arr xs) = Inr (case xs of [] \<Rightarrow> Undefined | x # _ \<Rightarrow> x)"
| "elem0 (Str s) = Inr (case s of [] \<Rightarrow> Undefined | c # _ \<Rightarrow> Str [c])"
| "elem0 (Obj kvs) = Inr (case map_of kvs ''0'' of None \<Rightarrow> Undefined | Some v \<Rightarrow> v)"
| "elem0 (Bool b) = Inr Undefined"
| "elem0 (Num n) = Inr Undefined"

definition sellerUrl :: "env \<Rightarrow> string \<Rightarrow> string" where
  "sellerUrl e finalRequestId =
     API_BASE_URL e @ ''/api/v1/ai/get_seller_data_by_request_id?request_id='' @ finalRequestId"

definition sellerRequest :: "env \<Rightarrow> string \<Rightarrow> string \<Rightarrow> request" where
  "sellerRequest e finalRequestId tok =
     \<lparr> req_url = sellerUrl e finalRequestId,
       req_method = ''GET'',
       req_headers = [(''accept'', ''*/*''),
                      (''accept-language'', ''en-GB,en-US;q=0.9,en;q=0.8''),
                      (''authorization'', tok),
                      (''currencycode'', ''USD''),
                      (''currencysymbol'', ''$''),
                      (''language'', ''en''),
                      (''platform'', ''3'')],
       req_body = None \<rparr>"

text \<open>
  The three \<^verbatim>\<open>console.log\<close> lines after the validation read through the first entry:
  the brand name, the length of the product list, and the \<^verbatim>\<open>asin\<close> of every product
  (\<^verbatim>\<open>products.map\<close>). Each read can throw.
\<close>

definition seller_log_lines :: "js \<Rightarrow> error + unit" where
  "seller_log_lines sellerInfo =
     then_do (get_prop sellerInfo ''brand_data'') (\<lambda>brand_data.
     then_do (get_prop brand_data ''official_brand_name'') (\<lambda>_.
     then_do (get_prop sellerInfo ''amazon_data'') (\<lambda>amazon_data.
     then_do (get_prop amazon_data ''products'') (\<lambda>products.
     then_do (get_prop products ''length'') (\<lambda>_.
       (case products of
          Arr ps \<Rightarrow> if list_all (\<lambda>p. \<not> isl (get_prop p ''asin'')) ps then Inr ()
                    else Inl TypeError
        | _ \<Rightarrow> Inl TypeError))))))"

definition seller_of_response :: "env \<Rightarrow> response \<Rightarrow> error + js" where
  "seller_of_response e response =
     (if \<not> resp_ok response
      then Inl (Error (''Failed to fetch seller data: '' @ decimal (resp_status response)
                        @ '' '' @ resp_statusText response))
      else
        (case JSON_parse e (response_text response) of
           None \<Rightarrow> Inl (Error ''Invalid JSON response from seller data API'')
         | Some data \<Rightarrow>
             then_do (get_prop data ''data'') (\<lambda>d.
               if \<not> truthy d \<or> \<not> isArray d \<or> get_prop d ''length'' = Inr (Num (Fin 0))
               then Inl (Error ''Invalid seller data response: data array is empty or missing'')
               else
                 then_do (elem0 d) (\<lambda>sellerInfo.
                 then_do (seller_log_lines sellerInfo) (\<lambda>_. Inr data)))))"

text \<open>\<^verbatim>\<open>requestId || '31b88e54-...'\<close>: \<open>None\<close> is a call without the argument.\<close>

definition finalRequestId :: "string option \<Rightarrow> string" where
  "finalRequestId requestId =
     (case requestId of
        None \<Rightarrow> ''31b88e54-acc9-4eee-8d45-e7e6410c448e''
      | Some r \<Rightarrow> if r = [] then ''31b88e54-acc9-4eee-8d45-e7e6410c448e'' else r)"

definition getSellerData :: "env \<Rightarrow> string option \<Rightarrow> state \<Rightarrow> (error + js) \<times> state" where
  "getSellerData e requestId s =
     (case getGuestToken e s of
        (Inl err, s1) \<Rightarrow> (Inl err, s1)
      | (Inr tok, s1) \<Rightarrow>
          (case do_fetch e (sellerRequest e (finalRequestId requestId) tok) s1 of
             (Rejected, s2) \<Rightarrow> (Inl NetworkError, s2)
           | (Resolved response, s2) \<Rightarrow> (seller_of_response e response, s2)))"

definition amazonUrl :: "env \<Rightarrow> string" where
  "amazonUrl e = API_BASE_URL e @ ''/api/v1/amazon/products''"

definition amazonRequest :: "env \<Rightarrow> string \<Rightarrow> string list \<Rightarrow> request" where
  "amazonRequest e tok validAsins =
     \<lparr> req_url = amazonUrl e,
       req_method = ''POST'',
       req_headers = [(''accept'', ''*/*''),
                      (''accept-language'', ''en-GB,en-US;q=0.9,en;q=0.8''),
                      (''authorization'', tok),
                      (''content-type'', ''application/json''),
                      (''currencycode'', ''USD''),
                      (''currencysymbol'', ''$''),
                      (''language'', ''en''),
                      (''platform'', ''3'')],
       req_body = Some (Obj [(''asins'', Arr (map Str validAsins))]) \<rparr>"

definition emptyAmazonProducts :: js where
  "emptyAmazonProducts = Obj [(''products'', Arr []), (''total'', Num (Fin 0))]"

text \<open>
  The last read is the \<^verbatim>\<open>console.log\<close> of \<^verbatim>\<open>data.products?.length\<close>, which throws
  when the body is the JSON text \<^verbatim>\<open>null\<close>.
\<close>

definition amazon_of_response :: "env \<Rightarrow> response \<Rightarrow> error + js" where
  "amazon_of_response e response =
     (if \<not> resp_ok response
      then Inl (Error (''Failed to fetch Amazon product data: '' @ decimal (resp_status response)))
      else
        (case JSON_parse e (response_text response) of
           None \<Rightarrow> Inl (Error ''Invalid JSON response from Amazon products API'')
         | Some data \<Rightarrow> then_do (get_prop data ''products'') (\<lambda>_. Inr data)))"

text \<open>\<^verbatim>\<open>getAmazonProductData\<close>: \<open>None\<close> is a \<^verbatim>\<open>null\<close> or \<^verbatim>\<open>undefined\<close> argument.\<close>

definition getAmazonProductData ::
    "env \<Rightarrow> string list option \<Rightarrow> state \<Rightarrow> (error + js) \<times> state" where
  "getAmazonProductData e asins s =
     (if asins = None \<or> length (the asins) = 0 then (Inr emptyAmazonProducts, s)
      else
        (let validAsins = filter (\<lambda>asin. asin \<noteq> [] \<and> length (trim asin) > 0) (the asins)
         in if length validAsins = 0 then (Inr emptyAmazonProducts, s)
            else
              (case getGuestToken e s of
                 (Inl err, s1) \<Rightarrow> (Inl err, s1)
               | (Inr tok, s1) \<Rightarrow>
                   (case do_fetch e (amazonRequest e tok validAsins) s1 of
                      (Rejected, s2) \<Rightarrow> (Inl NetworkError, s2)
                    | (Resolved response, s2) \<Rightarrow> (amazon_of_response e response, s2)))))"

section \<open>Product lists\<close>

record ProductsResponse =
  products :: "Product list"
  total :: nat
  page :: nat
  limit :: nat

definition productsResponse :: "Product list \<Rightarrow> ProductsResponse" where
  "productsResponse ps = \<lparr> products = ps, total = length ps, page = 1, limit = 20 \<rparr>"

definition getProductsDirect :: "env \<Rightarrow> state \<Rightarrow> (error + ProductsResponse) \<times> state" where
  "getProductsDirect e s =
     (case getAmazonProductData e (Some [''B08N5WRWNW'', ''B08N5WRWNW'', ''B08N5WRWNW'']) s of
        (Inl err, s1) \<Rightarrow> (Inl err, s1)
      | (Inr amazonProductsResponse, s1) \<Rightarrow>
          (then_do (get_prop amazonProductsResponse ''products'') (\<lambda>ps.
           then_do (convertAmazonDataToProducts (if truthy ps then ps else Arr [])) (\<lambda>products.
             Inr (productsResponse products))), s1))"

text \<open>
  What \<^verbatim>\<open>getProducts\<close> does with the seller response once it has it: from the
  entry \<^verbatim>\<open>data[0]\<close> it reads \<^verbatim>\<open>?.amazon_data?.products\<close>, answers with the empty
  list when that is falsy or of length 0, and with the normalizer's output otherwise.
\<close>

definition products_of_entry :: "js \<Rightarrow> error + ProductsResponse" where
  "products_of_entry first =
     (let amazonProducts = opt_prop (opt_prop first ''amazon_data'') ''products''
      in if \<not> truthy amazonProducts \<or> get_prop amazonProducts ''length'' = Inr (Num (Fin 0))
         then Inr (productsResponse [])
         else then_do (convertAmazonDataToProducts amazonProducts) (\<lambda>products.
                Inr (productsResponse products)))"

definition products_of_seller :: "js \<Rightarrow> error + ProductsResponse" where
  "products_of_seller sellerDataResponse =
     then_do (get_prop sellerDataResponse ''data'') (\<lambda>d.
     then_do (elem0 d) products_of_entry)"

definition getProducts :: "env \<Rightarrow> state \<Rightarrow> (error + ProductsResponse) \<times> state" where
  "getProducts e s =
     (case getSellerData e None s of
        (Inl err, s1) \<Rightarrow> (Inl err, s1)
      | (Inr sellerDataResponse, s1) \<Rightarrow> (products_of_seller sellerDataResponse, s1))"


section \<open>Vocabulary of the properties\<close>

text \<open>
  The declared shape of an input product, interface \<^verbatim>\<open>AmazonProduct\<close>: an object
  whose seven fields are strings, each of them possibly missing.
\<close>

definition opt_string :: "js \<Rightarrow> bool" where
  "opt_string v = (case v of Undefined \<Rightarrow> True | Str s \<Rightarrow> True | _ \<Rightarrow> False)"

definition is_AmazonProduct :: "js \<Rightarrow> bool" where
  "is_AmazonProduct p =
     (case p of
        Obj kvs \<Rightarrow>
          list_all (\<lambda>k. opt_string (opt_prop p k))
            [''asin'', ''product_title'', ''product_price'', ''product_photo'',
             ''product_availability'', ''product_url'', ''currency'']
      | _ \<Rightarrow> False)"

text \<open>
  The text \<^verbatim>\<open>parseFloat\<close> receives and the stock flag, for a field of the declared
  type.
\<close>

definition price_text :: "js \<Rightarrow> string" where
  "price_text pp = (case pp of Str s \<Rightarrow> if s = [] then ''0'' else replace s ''$'' [] | _ \<Rightarrow> ''0'')"

definition stock_of :: "js \<Rightarrow> bool" where
  "stock_of pa = (case pa of Str s \<Rightarrow> \<not> includes_str (toLowerCase s) ''out of stock'' | _ \<Rightarrow> True)"

text \<open>
  In the words of the specification: the availability is a text, and some part of it
  equals \<^verbatim>\<open>out of stock\<close> once case is ignored.
\<close>

definition mentions_out_of_stock :: "js \<Rightarrow> bool" where
  "mentions_out_of_stock v =
     (\<exists>a pre mid post. v = Str a \<and> a = pre @ mid @ post \<and> toLowerCase mid = ''out of stock'')"

text \<open>Three products: a complete one, one out of stock with no usable price, an empty one.\<close>

definition sample_products :: "js list" where
  "sample_products =
     [Obj [(''asin'', Str ''B071DR7GLW''), (''product_title'', Str ''Laundry Wash''),
           (''product_price'', Str ''$12.34''), (''product_availability'', Str ''In Stock'')],
      Obj [(''asin'', Str ''B0RNWQMYG''), (''product_price'', Str ''N/A''),
           (''product_photo'', Str ''https://example.org/p.jpg''),
           (''product_availability'', Str ''Temporarily OUT of Stock'')],
      Obj []]"

text \<open>
  The value \<^verbatim>\<open>getUserIP\<close> resolves to; it depends on the answer of the IP service
  only.
\<close>

definition userIP_value :: "env \<Rightarrow> js" where
  "userIP_value e =
     (case userIP_try e (network e ipRequest) of Inl err \<Rightarrow> fallbackIP | Inr ip \<Rightarrow> ip)"

text \<open>The addresses fetched by a run, in order.\<close>

definition fetched_urls :: "event list \<Rightarrow> string list" where
  "fetched_urls evs = concat (map (\<lambda>ev. case ev of Fetch r \<Rightarrow> [req_url r] | _ \<Rightarrow> []) evs)"

text \<open>
  In the words of the specification: the \<^verbatim>\<open>data\<close> field of the seller response is
  missing, not an array, or an empty array (a body that is the JSON text \<^verbatim>\<open>null\<close>
  has no field at all).
\<close>

definition seller_data_missing :: "js \<Rightarrow> bool" where
  "seller_data_missing data =
     (case get_prop data ''data'' of
        Inl err \<Rightarrow> True
      | Inr d \<Rightarrow> d = Undefined \<or> \<not> isArray d \<or> d = Arr [])"

text \<open>An identifier that is empty or consists of white space only.\<close>

definition blank :: "string \<Rightarrow> bool" where
  "blank a = list_all is_ws a"

text \<open>
  Sample worlds: the four endpoints answer as given, \<^verbatim>\<open>JSON.parse\<close> knows the bodies
  used below and rejects every other text.
\<close>

definition ok_response :: "string \<Rightarrow> fetch_result" where
  "ok_response t = Resolved \<lparr> resp_status = 200, resp_statusText = ''OK'', resp_body = Some t \<rparr>"

definition failed_response :: "nat \<Rightarrow> string \<Rightarrow> fetch_result" where
  "failed_response code t =
     Resolved \<lparr> resp_status = code, resp_statusText = ''Error'', resp_body = Some t \<rparr>"

definition unreadable_response :: fetch_result where
  "unreadable_response =
     Resolved \<lparr> resp_status = 200, resp_statusText = ''OK'', resp_body = None \<rparr>"

definition sample_network ::
    "fetch_result \<Rightarrow> fetch_result \<Rightarrow> fetch_result \<Rightarrow> fetch_result \<Rightarrow> request \<Rightarrow> fetch_result" where
  "sample_network ip_answer token_answer seller_answer catalog_answer req =
     (if req_url req = ''https://api.ipify.org/?format=json'' then ip_answer
      else if req_url req = ''https://api.trulyfreehome.dev/v1/guest/signIn'' then token_answer
      else if req_url req = ''https://api.trulyfreehome.dev/api/v1/ai/get_seller_data_by_request_id?request_id=31b88e54-acc9-4eee-8d45-e7e6410c448e''
        then seller_answer
      else if req_url req = ''https://api.trulyfreehome.dev/api/v1/amazon/products'' then catalog_answer
      else Rejected)"

definition ip_text :: string where
  \<open>ip_text = ''{"ip":"203.0.113.7"}''\<close>

definition token_text :: string where
  \<open>token_text = ''{"data":{"token":{"accessToken":"tok-1"}}}''\<close>

definition no_access_text :: string where
  \<open>no_access_text = ''{"data":{"token":{}}}''\<close>

definition seller_text :: string where
  \<open>seller_text = ''{"data":[{"brand_data":{"official_brand_name":"Acme"},"amazon_data":{"products":[{"asin":"B071DR7GLW","product_price":"$19.99","product_availability":"In Stock"}]}}]}''\<close>

definition empty_products_text :: string where
  \<open>empty_products_text = ''{"data":[{"brand_data":{"official_brand_name":"Acme"},"amazon_data":{"products":[]}}]}''\<close>

definition no_products_text :: string where
  \<open>no_products_text = ''{"data":[{"brand_data":{"official_brand_name":"Acme"},"amazon_data":{}}]}''\<close>

definition empty_data_text :: string where
  \<open>empty_data_text = ''{"data":[]}''\<close>

definition no_data_text :: string where
  \<open>no_data_text = ''{"message":"not found"}''\<close>

definition data_not_array_text :: string where
  \<open>data_not_array_text = ''{"data":"none"}''\<close>

definition catalog_text :: string where
  \<open>catalog_text = ''{"products":[{"asin":"B0CATALOG1","product_price":"$1.00"}],"total":1}''\<close>

definition seller_entry :: "js \<Rightarrow> js" where
  "seller_entry amazon_data =
     Obj [(''brand_data'', Obj [(''official_brand_name'', Str ''Acme'')]),
          (''amazon_data'', amazon_data)]"

definition seller_product :: js where
  "seller_product =
     Obj [(''asin'', Str ''B071DR7GLW''), (''product_price'', Str ''$19.99''),
          (''product_availability'', Str ''In Stock'')]"

definition seller_value :: js where
  "seller_value = Obj [(''data'', Arr [seller_entry (Obj [(''products'', Arr [seller_product])])])]"

definition sample_parse :: "string \<Rightarrow> js option" where
  "sample_parse t =
     (if t = ip_text then Some (Obj [(''ip'', Str ''203.0.113.7'')])
      else if t = token_text
        then Some (Obj [(''data'', Obj [(''token'', Obj [(''accessToken'', Str ''tok-1'')])])])
      else if t = no_access_text then Some (Obj [(''data'', Obj [(''token'', Obj [])])])
      else if t = seller_text then Some seller_value
      else if t = empty_products_text
        then Some (Obj [(''data'', Arr [seller_entry (Obj [(''products'', Arr [])])])])
      else if t = no_products_text then Some (Obj [(''data'', Arr [seller_entry (Obj [])])])
      else if t = empty_data_text then Some (Obj [(''data'', Arr [])])
      else if t = no_data_text then Some (Obj [(''message'', Str ''not found'')])
      else if t = data_not_array_text then Some (Obj [(''data'', Str ''none'')])
      else if t = catalog_text
        then Some (Obj [(''products'', Arr [Obj
               [(''asin'', Str ''B0CATALOG1''), (''product_price'', Str ''$1.00'')]]),
                        (''total'', Num (Fin 1))])
      else None)"

definition sample_env ::
    "caches_status \<Rightarrow> fetch_result \<Rightarrow> fetch_result \<Rightarrow> fetch_result \<Rightarrow> fetch_result \<Rightarrow> env" where
  "sample_env c ip_answer token_answer seller_answer catalog_answer =
     \<lparr> NEXT_PUBLIC_API_BASE_URL = None,
       caches_api = c,
       network = sample_network ip_answer token_answer seller_answer catalog_answer,
       JSON_parse = sample_parse,
       randomUUID = ''123e4567-e89b-42d3-a456-426614174000'' \<rparr>"

definition sample_state :: state where
  "sample_state = \<lparr> clock = 1700000000000, cache = Map.empty, trace = [] \<rparr>"

text \<open>The world in which every endpoint answers well, and its variations in one answer.\<close>

definition good_env :: env where
  "good_env = sample_env CachesWorking (ok_response ip_text) (ok_response token_text)
                (ok_response seller_text) (ok_response catalog_text)"

definition ip_env :: "fetch_result \<Rightarrow> env" where
  "ip_env ip_answer = sample_env CachesWorking ip_answer (ok_response token_text)
                        (ok_response seller_text) (ok_response catalog_text)"

definition token_env :: "fetch_result \<Rightarrow> env" where
  "token_env token_answer = sample_env CachesWorking (ok_response ip_text) token_answer
                        (ok_response seller_text) (ok_response catalog_text)"

definition seller_env :: "fetch_result \<Rightarrow> env" where
  "seller_env seller_answer = sample_env CachesWorking (ok_response ip_text)
                        (ok_response token_text) seller_answer (ok_response catalog_text)"

text \<open>What the good world's seller response normalizes to.\<close>

definition seller_catalog :: ProductsResponse where
  "seller_catalog = productsResponse
     [\<lparr> id_field = Str ''B071DR7GLW'', name = Str ''Product 1'', price = to_double (1999 / 100),
        description = ''No description available'',
        image_field = Str ''https://images.pexels.com/photos/3825572/pexels-photo-3825572.jpeg?auto=compress&cs=tinysrgb&w=800'',
        category = ''General'', inStock = True, asin = Str ''B071DR7GLW'' \<rparr>]"

section \<open>Properties of the normalizer\<close>

lemma startsWith_iff: "startsWith s pat \<longleftrightarrow> (\<exists>post. s = pat @ post)"
proof
  assume "startsWith s pat"
  then have "pat @ drop (length pat) s = s"
    unfolding startsWith_def using append_take_drop_id [of "length pat" s] by simp
  then show "\<exists>post. s = pat @ post" by (intro exI [of _ "drop (length pat) s"]) simp
next
  assume "\<exists>post. s = pat @ post"
  then show "startsWith s pat" unfolding startsWith_def by auto
qed

lemma includes_str_iff: "includes_str s pat \<longleftrightarrow> (\<exists>pre post. s = pre @ pat @ post)"
proof (induction s)
  case Nil
  show ?case by simp
next
  case (Cons c cs)
  have split: "(\<exists>pre post. c # cs = pre @ pat @ post) \<longleftrightarrow>
      (\<exists>post. c # cs = pat @ post) \<or> (\<exists>pre post. cs = pre @ pat @ post)"
  proof
    assume "\<exists>pre post. c # cs = pre @ pat @ post"
    then obtain pre post where e: "c # cs = pre @ pat @ post" by blast
    show "(\<exists>post. c # cs = pat @ post) \<or> (\<exists>pre post. cs = pre @ pat @ post)"
    proof (cases pre)
      case Nil
      with e have "c # cs = pat @ post" by simp
      then show ?thesis by blast
    next
      case (Cons a pre')
      with e have "cs = pre' @ pat @ post" by simp
      then show ?thesis by blast
    qed
  next
    assume "(\<exists>post. c # cs = pat @ post) \<or> (\<exists>pre post. cs = pre @ pat @ post)"
    then show "\<exists>pre post. c # cs = pre @ pat @ post"
    proof
      assume "\<exists>post. c # cs = pat @ post"
      then obtain post where "c # cs = pat @ post" by blast
      then have "c # cs = [] @ pat @ post" by simp
      then show ?thesis by blast
    next
      assume "\<exists>pre post. cs = pre @ pat @ post"
      then obtain pre post where "cs = pre @ pat @ post" by blast
      then have "c # cs = (c # pre) @ pat @ post" by simp
      then show ?thesis by blast
    qed
  qed
  have "includes_str (c # cs) pat \<longleftrightarrow> startsWith (c # cs) pat \<or> includes_str cs pat"
    by (simp only: includes_str.simps)
  also have "\<dots> \<longleftrightarrow> (\<exists>post. c # cs = pat @ post) \<or> (\<exists>pre post. cs = pre @ pat @ post)"
    by (simp only: startsWith_iff Cons.IH)
  also have "\<dots> \<longleftrightarrow> (\<exists>pre post. c # cs = pre @ pat @ post)"
    by (simp only: split)
  finally show ?case .
qed

lemma map_eq_appendD:
  assumes "map f xs = ys @ zs"
  shows "\<exists>us vs. xs = us @ vs \<and> map f us = ys \<and> map f vs = zs"
proof (intro exI conjI)
  show "xs = take (length ys) xs @ drop (length ys) xs" by simp
  have "map f (take (length ys) xs) = take (length ys) (map f xs)" by (simp add: take_map)
  then show "map f (take (length ys) xs) = ys" using assms by simp
  have "map f (drop (length ys) xs) = drop (length ys) (map f xs)" by (simp add: drop_map)
  then show "map f (drop (length ys) xs) = zs" using assms by simp
qed

lemma includes_lower_iff:
  "includes_str (toLowerCase a) w \<longleftrightarrow> (\<exists>pre mid post. a = pre @ mid @ post \<and> toLowerCase mid = w)"
proof
  assume "includes_str (toLowerCase a) w"
  then obtain pre' post' where e: "map lower_char a = pre' @ (w @ post')"
    unfolding includes_str_iff toLowerCase_def by blast
  from map_eq_appendD [OF e] obtain pre r where a1: "a = pre @ r" and r: "map lower_char r = w @ post'"
    by blast
  from map_eq_appendD [OF r] obtain mid post where m: "r = mid @ post" and w: "map lower_char mid = w"
    by blast
  have "a = pre @ mid @ post \<and> toLowerCase mid = w"
    using a1 m w by (simp add: toLowerCase_def)
  then show "\<exists>pre mid post. a = pre @ mid @ post \<and> toLowerCase mid = w" by blast
next
  assume "\<exists>pre mid post. a = pre @ mid @ post \<and> toLowerCase mid = w"
  then obtain pre mid post where "a = pre @ mid @ post" and "toLowerCase mid = w" by blast
  then have "toLowerCase a = toLowerCase pre @ w @ toLowerCase post"
    by (simp add: toLowerCase_def)
  then show "includes_str (toLowerCase a) w"
    unfolding includes_str_iff by blast
qed

lemma foldl_digits:
  "foldl (\<lambda>a c. 10 * a + (of_char c - 48)) a ys
     = a * 10 ^ length ys + foldl (\<lambda>a c. 10 * a + (of_char c - 48)) (0::nat) ys"
proof (induction ys arbitrary: a)
  case Nil
  show ?case by simp
next
  case (Cons y ys)
  let ?f = "\<lambda>(a::nat) c. 10 * a + (of_char c - 48)"
  let ?d = "of_char y - 48 :: nat"
  have "foldl ?f a (y # ys) = foldl ?f (10 * a + ?d) ys" by simp
  also have "\<dots> = (10 * a + ?d) * 10 ^ length ys + foldl ?f 0 ys" by (rule Cons.IH)
  finally have l: "foldl ?f a (y # ys) = (10 * a + ?d) * 10 ^ length ys + foldl ?f 0 ys" .
  have "foldl ?f 0 (y # ys) = foldl ?f ?d ys" by simp
  also have "\<dots> = ?d * 10 ^ length ys + foldl ?f 0 ys" by (rule Cons.IH)
  finally have r: "foldl ?f 0 (y # ys) = ?d * 10 ^ length ys + foldl ?f 0 ys" .
  have "(10 * a + ?d) * 10 ^ length ys = a * 10 ^ length (y # ys) + ?d * 10 ^ length ys"
    by (simp add: add_mult_distrib)
  with l r show ?case by simp
qed

lemma digits_val_append:
  "digits_val (xs @ ys) = digits_val xs * 10 ^ length ys + digits_val ys"
  unfolding digits_val_def foldl_append by (rule foldl_digits)

lemma binade_from_finds:
  assumes "e0 \<le> e" "2 powi e \<le> a" "a < 2 powi (e + 1)" "nat (e - e0) \<le> n"
  shows "binade_from n e0 a = e"
  using assms
proof (induction n arbitrary: e0)
  case 0
  then have "e0 = e" by simp
  then show ?case by simp
next
  case (Suc n)
  show ?case
  proof (cases "e0 = e")
    case True
    with Suc.prems(3) show ?thesis by simp
  next
    case False
    with Suc.prems(1) have lt: "e0 + 1 \<le> e" by simp
    have "(2::rat) powi (e0 + 1) \<le> 2 powi e"
      by (rule power_int_increasing [OF lt]) simp
    with Suc.prems(2) have step: "2 powi (e0 + 1) \<le> a" by simp
    have "binade_from n (e0 + 1) a = e"
      using lt Suc.prems by (intro Suc.IH) simp_all
    with step show ?thesis by simp
  qed
qed

lemma binade_from_stops: "a < 2 powi (e + 1) \<Longrightarrow> binade_from n e a = e"
  by (cases n) simp_all

lemma to_double_binade:
  assumes "2 powi e \<le> \<bar>q\<bar>" "\<bar>q\<bar> < 2 powi (e + 1)" "- 1022 \<le> e" "e \<le> 1023"
  shows "to_double q =
     (let v = of_int (round_half_even (\<bar>q\<bar> / 2 powi (e - 52))) * 2 powi (e - 52)
      in if 2 powi 1024 \<le> v then (if q < 0 then NegInf else PosInf)
         else Fin (if q < 0 then - v else v))"
proof -
  have b: "binade_from 2045 (- 1022) \<bar>q\<bar> = e"
    using assms by (intro binade_from_finds) simp_all
  show ?thesis unfolding to_double_def Let_def b by (rule refl)
qed


lemma to_double_not_NaN: "to_double q \<noteq> NaN"
  unfolding to_double_def Let_def by (simp only: if_distrib [of "\<lambda>v. v \<noteq> NaN"] jsnum.distinct if_True if_False simp_thms if_cancel)

lemma round_half_even_error: "\<bar>of_int (round_half_even x) - x\<bar> \<le> 1 / 2"
proof -
  define f where "f = \<lfloor>x\<rfloor>"
  have f: "of_int f \<le> x" "x < of_int f + 1" unfolding f_def by linarith+
  have "round_half_even x =
      (if x - of_int f < 1 / 2 then f else if 1 / 2 < x - of_int f then f + 1
       else if even f then f else f + 1)"
    by (simp add: round_half_even_def Let_def f_def)
  then show ?thesis using f by (auto simp: abs_if)
qed

text \<open>
  In the normal range the result of \<open>to_double\<close> is within half a unit in the last
  place of the value: it is the nearest double.
\<close>

lemma to_double_nearest:
  assumes "2 powi e \<le> \<bar>q\<bar>" "\<bar>q\<bar> < 2 powi (e + 1)" "- 1022 \<le> e" "e \<le> 1023"
    and "to_double q = Fin v"
  shows "\<bar>v - q\<bar> \<le> 2 powi (e - 53)"
proof -
  define ulp :: rat where "ulp = 2 powi (e - 52)"
  define m where "m = round_half_even (\<bar>q\<bar> / ulp)"
  have ulp: "0 < ulp" unfolding ulp_def by (rule zero_less_power_int) simp
  have half: "ulp / 2 = 2 powi (e - 53)"
  proof -
    have "(2::rat) powi ((e - 53) + 1) = 2 powi (e - 53) * 2 powi 1"
      by (rule power_int_add) simp
    then show ?thesis by (simp add: ulp_def)
  qed
  from assms(5) have v: "v = (if q < 0 then - (of_int m * ulp) else of_int m * ulp)"
    unfolding to_double_binade [OF assms(1-4)] Let_def m_def ulp_def
    by (simp split: if_splits)
  have "\<bar>of_int m * ulp - \<bar>q\<bar>\<bar> = ulp * \<bar>of_int m - \<bar>q\<bar> / ulp\<bar>"
  proof -
    have "of_int m * ulp - \<bar>q\<bar> = ulp * (of_int m - \<bar>q\<bar> / ulp)"
      using ulp by (simp add: algebra_simps)
    then show ?thesis using ulp by (simp add: abs_mult)
  qed
  also have "\<dots> \<le> ulp * (1 / 2)"
    using round_half_even_error [of "\<bar>q\<bar> / ulp"] ulp unfolding m_def
    by (intro mult_left_mono) simp_all
  finally have "\<bar>of_int m * ulp - \<bar>q\<bar>\<bar> \<le> 2 powi (e - 53)" using half by simp
  moreover have "\<bar>v - q\<bar> = \<bar>of_int m * ulp - \<bar>q\<bar>\<bar>"
  proof (cases "q < 0")
    case True
    then have "v - q = - (of_int m * ulp - \<bar>q\<bar>)" using v by simp
    then have "\<bar>v - q\<bar> = \<bar>- (of_int m * ulp - \<bar>q\<bar>)\<bar>" by (rule arg_cong)
    then show ?thesis by (simp only: abs_minus_cancel)
  next
    case False
    then have "v - q = of_int m * ulp - \<bar>q\<bar>" using v by simp
    then show ?thesis by (rule arg_cong)
  qed
  ultimately show ?thesis by simp
qed

lemma round_half_even_fraction:
  assumes "x = of_int k + d" "0 \<le> d" "d < 1 / 2"
  shows "round_half_even x = k"
proof -
  have "\<lfloor>x\<rfloor> = k" using assms by (intro floor_unique) simp_all
  then show ?thesis using assms by (simp add: round_half_even_def Let_def)
qed


text \<open>
  Outside the range of doubles: a value below half the smallest subnormal becomes 0, a
  value of \<open>2 powi 1024\<close> or more becomes infinite.
\<close>

lemma to_double_underflow:
  assumes "\<bar>q\<bar> < 2 powi (- 1075)"
  shows "to_double q = Fin 0"
proof -
  have "(2::rat) powi (- 1075) \<le> 2 powi (- 1022 + 1)"
    by (rule power_int_increasing) simp_all
  with assms have "\<bar>q\<bar> < 2 powi (- 1022 + 1)" by simp
  then have b: "binade_from 2045 (- 1022) \<bar>q\<bar> = - 1022" by (rule binade_from_stops)
  have ulp: "(0::rat) < 2 powi (- 1074)" by (rule zero_less_power_int) simp
  have "(2::rat) powi (- 1075 + 1) = 2 powi (- 1075) * 2 powi 1"
    by (rule power_int_add) simp
  then have "(2::rat) powi (- 1075) = 2 powi (- 1074) / 2" by simp
  with assms ulp have "\<bar>q\<bar> / 2 powi (- 1074) < 1 / 2"
    by (simp add: field_simps)
  then have r: "round_half_even (\<bar>q\<bar> / 2 powi (- 1022 - 52)) = 0"
    using ulp by (intro round_half_even_fraction [where d = "\<bar>q\<bar> / 2 powi (- 1074)"]) simp_all
  have p: "(0::rat) < 2 powi 1024" by (rule zero_less_power_int) simp
  show ?thesis unfolding to_double_def Let_def b r using p by simp
qed

lemma binade_from_climbs:
  assumes "2 powi (e0 + int n) \<le> a"
  shows "binade_from n e0 a = e0 + int n"
  using assms
proof (induction n arbitrary: e0)
  case 0
  then show ?case by simp
next
  case (Suc n)
  have "(2::rat) powi (e0 + 1) \<le> 2 powi (e0 + int (Suc n))"
    by (rule power_int_increasing) simp_all
  with Suc.prems have step: "2 powi (e0 + 1) \<le> a" by simp
  have "binade_from n (e0 + 1) a = e0 + 1 + int n"
    using Suc.prems by (intro Suc.IH) (simp add: add.assoc)
  with step show ?case by simp
qed

lemma to_double_overflow:
  assumes "2 powi 1024 \<le> \<bar>q\<bar>"
  shows "to_double q = (if q < 0 then NegInf else PosInf)"
proof -
  define big :: rat where "big = 2 powi 1024"
  define ulp :: rat where "ulp = 2 powi (1023 - 52)"
  define k :: rat where "k = 2 powi 53"
  have ulp: "0 < ulp" unfolding ulp_def by (rule zero_less_power_int) simp
  have idx: "- 1022 + int 2045 = 1023" by simp
  have "(2::rat) powi 1023 \<le> 2 powi 1024"
    by (rule power_int_increasing) simp_all
  then have "(2::rat) powi 1023 \<le> \<bar>q\<bar>" using assms by (rule order_trans)
  then have "(2::rat) powi (- 1022 + int 2045) \<le> \<bar>q\<bar>" by (simp only: idx)
  then have "binade_from 2045 (- 1022) \<bar>q\<bar> = - 1022 + int 2045" by (rule binade_from_climbs)
  then have b: "binade_from 2045 (- 1022) \<bar>q\<bar> = 1023" by (simp only: idx)
  have sum: "(53::int) + (1023 - 52) = 1024" by simp
  have "(2::rat) powi (53 + (1023 - 52)) = 2 powi 53 * 2 powi (1023 - 52)"
    by (rule power_int_add) simp
  then have split: "big = k * ulp"
    unfolding big_def k_def ulp_def by (simp only: sum)
  have "k * ulp \<le> \<bar>q\<bar>" using assms unfolding split [symmetric] big_def .
  then have "k \<le> \<bar>q\<bar> / ulp" using ulp by (simp only: pos_le_divide_eq)
  moreover have "k = of_int 9007199254740992" unfolding k_def by (simp add: power_int_def)
  ultimately have "of_int 9007199254740992 \<le> \<bar>q\<bar> / ulp" by simp
  then have "9007199254740992 \<le> \<lfloor>\<bar>q\<bar> / ulp\<rfloor>" by (simp only: le_floor_iff)
  moreover have "\<lfloor>x\<rfloor> \<le> round_half_even x" for x
    by (simp add: round_half_even_def Let_def)
  ultimately have "9007199254740992 \<le> round_half_even (\<bar>q\<bar> / ulp)"
    by (rule order_trans)
  then have "(of_int 9007199254740992 :: rat) \<le> of_int (round_half_even (\<bar>q\<bar> / ulp))"
    by (simp only: of_int_le_iff)
  then have "of_int 9007199254740992 * ulp \<le> of_int (round_half_even (\<bar>q\<bar> / ulp)) * ulp"
    using ulp by (intro mult_right_mono) simp_all
  moreover have "of_int 9007199254740992 * ulp = big"
    unfolding split using \<open>k = of_int 9007199254740992\<close> by simp
  ultimately have "big \<le> of_int (round_half_even (\<bar>q\<bar> / ulp)) * ulp" by simp
  then have F: "(2::rat) powi 1024
      \<le> of_int (round_half_even (\<bar>q\<bar> / 2 powi (1023 - 52))) * 2 powi (1023 - 52)"
    unfolding big_def ulp_def .
  show ?thesis
    unfolding to_double_def Let_def b by (simp only: F if_True)
qed

lemma digit_not_ws: "is_digit c \<Longrightarrow> \<not> is_ws c"
  by (auto simp: is_digit_def is_ws_def)

lemma parseFloat_decimal:
  assumes "ip \<noteq> []" "fp \<noteq> []" "list_all is_digit ip" "list_all is_digit fp"
  shows "parseFloat (ip @ ''.'' @ fp) =
           to_double (of_nat (digits_val ip) + of_nat (digits_val fp) / 10 ^ length fp)"
proof -
  define t where "t = ip @ ''.'' @ fp"
  obtain c cs where ip: "ip = c # cs" using assms(1) by (cases ip) auto
  have t: "t = c # (cs @ ''.'' @ fp)" by (simp add: t_def ip)
  have dc: "is_digit c" using assms(3) ip by simp
  have nd: "\<not> is_digit CHR ''.''" by (simp add: is_digit_def)
  have f1: "dropWhile is_ws t = t"
    using digit_not_ws [OF dc] by (simp add: t)
  have f2: "(case t of [] \<Rightarrow> False | c # _ \<Rightarrow> c = CHR ''-'') = False"
    using dc by (auto simp: t is_digit_def)
  have f3: "(case t of [] \<Rightarrow> [] | c # cs \<Rightarrow> if c = CHR ''-'' \<or> c = CHR ''+'' then cs else t) = t"
    using dc by (auto simp: t is_digit_def)
  have f4: "startsWith t ''Infinity'' = False"
    using dc by (auto simp: t startsWith_def is_digit_def)
  have f5: "takeWhile is_digit t = ip"
    unfolding t_def using assms(3) nd by (simp add: list_all_iff)
  have f6: "dropWhile is_digit t = ''.'' @ fp"
    unfolding t_def using assms(3) nd by (simp add: list_all_iff)
  have f7: "takeWhile is_digit fp = fp" "dropWhile is_digit fp = []"
    using assms(4) by (simp_all add: list_all_iff)
  have "parseFloat t = to_double (of_nat (digits_val (ip @ fp)) / 10 ^ length fp)"
    unfolding parseFloat_def Let_def f1 f2 f3 f4 f5 f6
    using assms(1) by (simp add: f7 exponent_part_def)
  then show ?thesis
    by (simp add: t_def digits_val_append add_divide_distrib)
qed


lemma then_do_simps [simp]:
  "then_do (Inl err) f = Inl err" "then_do (Inr x) f = f x"
  by (simp_all add: then_do_def)

lemma convert_from_length: "convert_from i ps = Inr qs \<Longrightarrow> length qs = length ps"
  by (induction ps arbitrary: i qs) (auto split: sum.splits)

lemma convert_from_nth:
  "convert_from i ps = Inr qs \<Longrightarrow> k < length ps \<Longrightarrow> convertProduct (ps ! k) (i + k) = Inr (qs ! k)"
proof (induction ps arbitrary: i qs k)
  case Nil
  then show ?case by simp
next
  case (Cons p ps)
  from Cons.prems(1) obtain q qs' where
    q: "convertProduct p i = Inr q" and r: "convert_from (Suc i) ps = Inr qs'" and qs: "qs = q # qs'"
    by (auto split: sum.splits)
  show ?case
  proof (cases k)
    case 0
    then show ?thesis using q qs by simp
  next
    case (Suc k')
    then have "k' < length ps" using Cons.prems(2) by simp
    from Cons.IH [OF r this] show ?thesis using Suc qs by simp
  qed
qed

lemma is_AmazonProduct_fields:
  assumes "is_AmazonProduct p"
  shows "\<exists>kvs. p = Obj kvs"
    and "opt_string (opt_prop p ''product_price'')"
    and "opt_string (opt_prop p ''product_availability'')"
  using assms by (cases p; simp add: is_AmazonProduct_def)+

lemma get_prop_opt_prop: "p = Obj kvs \<Longrightarrow> get_prop p k = Inr (opt_prop p k)"
  by (simp add: opt_prop_def)

lemma priceString_typed: "opt_string pp \<Longrightarrow> priceString pp = Inr (price_text pp)"
  by (cases pp) (simp_all add: opt_string_def priceString_def price_text_def)

lemma availability_typed: "opt_string pa \<Longrightarrow> availability_inStock pa = Inr (stock_of pa)"
  by (cases pa) (simp_all add: opt_string_def availability_inStock_def stock_of_def toLowerCase_def)

lemma convertProduct_typed:
  assumes "is_AmazonProduct p"
  shows "\<exists>q. convertProduct p i = Inr q
           \<and> id_field q = opt_prop p ''asin'' \<and> asin q = opt_prop p ''asin''
           \<and> price q = or_zero (parseFloat (price_text (opt_prop p ''product_price'')))
           \<and> inStock q = stock_of (opt_prop p ''product_availability'')
           \<and> name q = (if truthy (opt_prop p ''product_title'') then opt_prop p ''product_title''
                       else Str (''Product '' @ decimal (i + 1)))
           \<and> image_field q = (if truthy (opt_prop p ''product_photo'') then opt_prop p ''product_photo''
                       else Str (placeholder_image i))"
proof -
  obtain kvs where p: "p = Obj kvs" using is_AmazonProduct_fields(1) [OF assms] by blast
  show ?thesis
    unfolding convertProduct_def get_prop_opt_prop [OF p]
    by (simp add: priceString_typed [OF is_AmazonProduct_fields(2) [OF assms]]
        availability_typed [OF is_AmazonProduct_fields(3) [OF assms]] Let_def)
qed

lemma convert_typed_total:
  assumes "\<forall>p\<in>set ps. is_AmazonProduct p"
  shows "\<exists>out. convertAmazonDataToProducts (Arr ps) = Inr out"
proof -
  have "\<exists>qs. convert_from i ps = Inr qs" for i
    using assms
  proof (induction ps arbitrary: i)
    case Nil
    then show ?case by simp
  next
    case (Cons p ps)
    obtain q where "convertProduct p i = Inr q"
      using convertProduct_typed [of p i] Cons.prems by auto
    moreover obtain qs where "convert_from (Suc i) ps = Inr qs"
      using Cons.IH [of "Suc i"] Cons.prems by auto
    ultimately show ?case by simp
  qed
  then show ?thesis by (simp add: convertAmazonDataToProducts_def)
qed

lemma convert_nth:
  assumes "convertAmazonDataToProducts (Arr ps) = Inr out"
  shows "length out = length ps"
    and "i < length ps \<Longrightarrow> convertProduct (ps ! i) i = Inr (out ! i)"
  using assms convert_from_length [of 0 ps out] convert_from_nth [of 0 ps out i]
  by (simp_all add: convertAmazonDataToProducts_def)

lemma stock_of_iff: "stock_of v \<longleftrightarrow> \<not> mentions_out_of_stock v"
  by (cases v) (simp_all add: stock_of_def mentions_out_of_stock_def includes_lower_iff)


lemma or_zero_to_double: "or_zero (to_double q) = to_double q"
  using to_double_not_NaN [of q] by (simp add: or_zero_def)




lemma placeholder_image_samples:
  "placeholder_image 0 = ''https://images.pexels.com/photos/3825572/pexels-photo-3825572.jpeg?auto=compress&cs=tinysrgb&w=800''"
  "placeholder_image 2 = ''https://images.pexels.com/photos/3825574/pexels-photo-3825574.jpeg?auto=compress&cs=tinysrgb&w=800''"
  by (simp_all add: placeholder_image_def digit_char_def)


text \<open>
  Claim C5. For every product of a list of the declared shape, the output is out of
  stock exactly when the availability is a text that contains \<^verbatim>\<open>out of stock\<close>,
  case ignored; any other text and a missing availability give in stock.
\<close>

theorem normalizer_availability:
  assumes "list_all is_AmazonProduct ps"
  shows "\<exists>out. convertAmazonDataToProducts (Arr ps) = Inr out \<and> length out = length ps \<and>
           (\<forall>i<length ps.
              inStock (out ! i) =
                (\<not> mentions_out_of_stock (opt_prop (ps ! i) ''product_availability'')))"
proof -
  have typed: "\<forall>p\<in>set ps. is_AmazonProduct p" using assms by (simp add: list_all_iff)
  obtain out where out: "convertAmazonDataToProducts (Arr ps) = Inr out"
    using convert_typed_total [OF typed] by blast
  have len: "length out = length ps" by (rule convert_nth(1) [OF out])
  have "inStock (out ! i) = (\<not> mentions_out_of_stock (opt_prop (ps ! i) ''product_availability''))"
    if i: "i < length ps" for i
  proof -
    have "is_AmazonProduct (ps ! i)" using typed i by simp
    from convertProduct_typed [OF this, of i] convert_nth(2) [OF out i]
    have "inStock (out ! i) = stock_of (opt_prop (ps ! i) ''product_availability'')" by simp
    then show ?thesis by (simp only: stock_of_iff)
  qed
  with out len show ?thesis by blast
qed

text \<open>The sample list: in stock, out of stock (\<^verbatim>\<open>Temporarily OUT of Stock\<close>), in stock.\<close>

theorem normalizer_availability_witness:
  "list_all is_AmazonProduct sample_products \<and>
   (\<exists>out. convertAmazonDataToProducts (Arr sample_products) = Inr out \<and> length out = 3 \<and>
      inStock (out ! 0) \<and> \<not> inStock (out ! 1) \<and> inStock (out ! 2))"
proof -
  have h: "list_all is_AmazonProduct sample_products"
    by (simp add: sample_products_def is_AmazonProduct_def opt_string_def opt_prop_def)
  from normalizer_availability [OF h] obtain out where
    out: "convertAmazonDataToProducts (Arr sample_products) = Inr out"
    and len: "length out = length sample_products"
    and each: "\<And>i. i < length sample_products \<Longrightarrow>
        inStock (out ! i) =
          (\<not> mentions_out_of_stock (opt_prop (sample_products ! i) ''product_availability''))"
    by blast
  have l3: "length sample_products = 3" by (simp add: sample_products_def)
  have a0: "opt_prop (sample_products ! 0) ''product_availability'' = Str ''In Stock''"
    and a1: "opt_prop (sample_products ! 1) ''product_availability'' = Str ''Temporarily OUT of Stock''"
    and a2: "opt_prop (sample_products ! 2) ''product_availability'' = Undefined"
    by (simp_all add: sample_products_def opt_prop_def)
  have m0: "\<not> mentions_out_of_stock (Str ''In Stock'')"
    using stock_of_iff [of "Str ''In Stock''"]
    by (simp add: stock_of_def toLowerCase_def lower_char_def startsWith_def)
  have "toLowerCase ''OUT of Stock'' = ''out of stock''" by code_simp
  then have "''Temporarily OUT of Stock'' = ''Temporarily '' @ ''OUT of Stock'' @ [] \<and>
        toLowerCase ''OUT of Stock'' = ''out of stock''"
    by simp
  then have m1: "mentions_out_of_stock (Str ''Temporarily OUT of Stock'')"
    unfolding mentions_out_of_stock_def by blast
  have m2: "\<not> mentions_out_of_stock Undefined"
    by (simp add: mentions_out_of_stock_def)
  have "inStock (out ! 0)" using each [of 0] l3 a0 m0 by simp
  moreover have "\<not> inStock (out ! 1)" using each [of 1] l3 a1 m1 by simp
  moreover have "inStock (out ! 2)" using each [of 2] l3 a2 m2 by simp
  ultimately show ?thesis using h out len l3 by simp
qed

lemma convertProduct_ids:
  assumes "convertProduct p i = Inr q"
  shows "id_field q = opt_prop p ''asin''" and "asin q = opt_prop p ''asin''"
  using assms unfolding convertProduct_def
  by (auto split: sum.splits)

text \<open>
  Claim C10. On every list of products of the declared shape the normalizer returns a
  list of the same length, and at every position both \<^verbatim>\<open>id\<close> and \<^verbatim>\<open>asin\<close> of the
  output are the \<^verbatim>\<open>asin\<close> of the input at that position (\<^verbatim>\<open>undefined\<close> when the
  input has none).
\<close>

theorem normalizer_keeps_positions:
  assumes "list_all is_AmazonProduct ps"
  shows "\<exists>out. convertAmazonDataToProducts (Arr ps) = Inr out \<and> length out = length ps \<and>
           (\<forall>i<length ps. id_field (out ! i) = opt_prop (ps ! i) ''asin'' \<and>
                            asin (out ! i) = opt_prop (ps ! i) ''asin'')"
proof -
  have typed: "\<forall>p\<in>set ps. is_AmazonProduct p" using assms by (simp add: list_all_iff)
  obtain out where out: "convertAmazonDataToProducts (Arr ps) = Inr out"
    using convert_typed_total [OF typed] by blast
  have len: "length out = length ps" by (rule convert_nth(1) [OF out])
  have "id_field (out ! i) = opt_prop (ps ! i) ''asin'' \<and> asin (out ! i) = opt_prop (ps ! i) ''asin''"
    if i: "i < length ps" for i
    using convertProduct_ids [OF convert_nth(2) [OF out i]] by simp
  with out len show ?thesis by blast
qed

text \<open>The sample list: the two identifiers in order, then \<^verbatim>\<open>undefined\<close>.\<close>

theorem normalizer_keeps_positions_witness:
  "list_all is_AmazonProduct sample_products \<and>
   (\<exists>out. convertAmazonDataToProducts (Arr sample_products) = Inr out \<and> length out = 3 \<and>
      id_field (out ! 0) = Str ''B071DR7GLW'' \<and> asin (out ! 0) = Str ''B071DR7GLW'' \<and>
      id_field (out ! 1) = Str ''B0RNWQMYG'' \<and> asin (out ! 1) = Str ''B0RNWQMYG'' \<and>
      id_field (out ! 2) = Undefined \<and> asin (out ! 2) = Undefined)"
proof -
  have h: "list_all is_AmazonProduct sample_products"
    by (simp add: sample_products_def is_AmazonProduct_def opt_string_def opt_prop_def)
  from normalizer_keeps_positions [OF h] obtain out where
    out: "convertAmazonDataToProducts (Arr sample_products) = Inr out"
    and len: "length out = length sample_products"
    and each: "\<And>i. i < length sample_products \<Longrightarrow>
        id_field (out ! i) = opt_prop (sample_products ! i) ''asin'' \<and>
        asin (out ! i) = opt_prop (sample_products ! i) ''asin''"
    by blast
  have l3: "length sample_products = 3" by (simp add: sample_products_def)
  have a: "opt_prop (sample_products ! 0) ''asin'' = Str ''B071DR7GLW''"
      "opt_prop (sample_products ! 1) ''asin'' = Str ''B0RNWQMYG''"
      "opt_prop (sample_products ! 2) ''asin'' = Undefined"
    by (simp_all add: sample_products_def opt_prop_def)
  show ?thesis
    using h out len l3 each [of 0] each [of 1] each [of 2] a by simp
qed


section \<open>The sample worlds\<close>

lemmas sample_texts =
  ip_text_def token_text_def no_access_text_def seller_text_def empty_products_text_def
  no_products_text_def empty_data_text_def no_data_text_def data_not_array_text_def
  catalog_text_def

lemma sample_parse_values:
  "sample_parse ip_text = Some (Obj [(''ip'', Str ''203.0.113.7'')])"
  "sample_parse token_text
     = Some (Obj [(''data'', Obj [(''token'', Obj [(''accessToken'', Str ''tok-1'')])])])"
  "sample_parse no_access_text = Some (Obj [(''data'', Obj [(''token'', Obj [])])])"
  "sample_parse seller_text = Some seller_value"
  "sample_parse empty_products_text
     = Some (Obj [(''data'', Arr [seller_entry (Obj [(''products'', Arr [])])])])"
  "sample_parse no_products_text = Some (Obj [(''data'', Arr [seller_entry (Obj [])])])"
  "sample_parse empty_data_text = Some (Obj [(''data'', Arr [])])"
  "sample_parse no_data_text = Some (Obj [(''message'', Str ''not found'')])"
  "sample_parse data_not_array_text = Some (Obj [(''data'', Str ''none'')])"
  "sample_parse ''<html>Bad Gateway</html>'' = None"
  by (simp_all add: sample_parse_def sample_texts)

lemma sample_env_parts:
  "caches_api (sample_env c ip tk sl ct) = c"
  "JSON_parse (sample_env c ip tk sl ct) = sample_parse"
  "API_BASE_URL (sample_env c ip tk sl ct) = ''https://api.trulyfreehome.dev''"
  by (simp_all add: sample_env_def API_BASE_URL_def)

lemma sample_env_answers:
  "network (sample_env c ip tk sl ct) ipRequest = ip"
  "network (sample_env c ip tk sl ct) (guestTokenRequest (sample_env c ip tk sl ct) ipv now) = tk"
  "network (sample_env c ip tk sl ct)
     (sellerRequest (sample_env c ip tk sl ct) (finalRequestId None) tok) = sl"
  "network (sample_env c ip tk sl ct) (amazonRequest (sample_env c ip tk sl ct) tok as) = ct"
  by (simp_all add: sample_env_def sample_network_def ipRequest_def IP_API_URL_def
      guestTokenRequest_def tokenUrl_def sellerRequest_def sellerUrl_def finalRequestId_def
      amazonRequest_def amazonUrl_def API_BASE_URL_def)

lemma ip_env_answer: "network (ip_env a) ipRequest = a"
  by (simp add: ip_env_def sample_env_answers)

lemma token_env_answer: "network (token_env a) (guestTokenRequest (token_env a) ipv now) = a"
  by (simp add: token_env_def sample_env_answers)

lemma seller_env_answer:
  "network (seller_env a) (sellerRequest (seller_env a) (finalRequestId None) tok) = a"
  by (simp add: seller_env_def sample_env_answers)

section \<open>Properties of the IP resolver\<close>

lemma getUserIP_eq:
  "getUserIP e s = (Inr (userIP_value e), log_event (Fetch ipRequest) s)"
  by (simp add: getUserIP_def do_fetch_def userIP_value_def split: sum.splits)

lemma userIP_try_fails:
  assumes "network e ipRequest = Rejected \<or>
           (\<exists>r. network e ipRequest = Resolved r \<and>
                (\<not> resp_ok r \<or> resp_body r = None \<or>
                 (\<exists>t. resp_body r = Some t \<and> JSON_parse e t = None)))"
  shows "\<exists>err. userIP_try e (network e ipRequest) = Inl err"
  using assms by (auto simp: userIP_try_def)

text \<open>
  Claim C8. \<^verbatim>\<open>getUserIP\<close> returns a value whatever the IP service does, and when the
  call is rejected, or answers with a status outside 200..299, or with a body that
  cannot be read or is not JSON, the value is the string \<^verbatim>\<open>152.59.204.243\<close>.
\<close>

theorem getUserIP_never_throws:
  "\<exists>ip. fst (getUserIP e s) = Inr ip \<and>
     (network e ipRequest = Rejected \<or>
      (\<exists>r. network e ipRequest = Resolved r \<and>
           (\<not> resp_ok r \<or> resp_body r = None \<or>
            (\<exists>t. resp_body r = Some t \<and> JSON_parse e t = None)))
      \<longrightarrow> ip = Str ''152.59.204.243'')"
proof -
  have "fst (getUserIP e s) = Inr (userIP_value e)" by (simp add: getUserIP_eq)
  moreover have "userIP_value e = Str ''152.59.204.243''"
    if "network e ipRequest = Rejected \<or>
        (\<exists>r. network e ipRequest = Resolved r \<and>
             (\<not> resp_ok r \<or> resp_body r = None \<or>
              (\<exists>t. resp_body r = Some t \<and> JSON_parse e t = None)))"
    using userIP_try_fails [OF that] by (auto simp: userIP_value_def fallbackIP_def)
  ultimately show ?thesis by blast
qed

text \<open>A rejected call, a 503, an unreadable body, a body that is not JSON.\<close>

theorem getUserIP_never_throws_witness:
  "fst (getUserIP (ip_env Rejected) sample_state) = Inr (Str ''152.59.204.243'') \<and>
   fst (getUserIP (ip_env (failed_response 503 ''Service Unavailable'')) sample_state)
     = Inr (Str ''152.59.204.243'') \<and>
   fst (getUserIP (ip_env unreadable_response) sample_state) = Inr (Str ''152.59.204.243'') \<and>
   fst (getUserIP (ip_env (ok_response ''<html>Bad Gateway</html>'')) sample_state)
     = Inr (Str ''152.59.204.243'')"
proof -
  have fallback: "fst (getUserIP (ip_env a) sample_state) = Inr (Str ''152.59.204.243'')"
    if "a = Rejected \<or>
        (\<exists>r. a = Resolved r \<and>
             (\<not> resp_ok r \<or> resp_body r = None \<or>
              (\<exists>t. resp_body r = Some t \<and> JSON_parse (ip_env a) t = None)))" for a
    using getUserIP_never_throws [of "ip_env a" sample_state] that
    unfolding ip_env_answer by auto
  have 1: "fst (getUserIP (ip_env Rejected) sample_state) = Inr (Str ''152.59.204.243'')"
    by (rule fallback) simp
  have 2: "fst (getUserIP (ip_env (failed_response 503 ''Service Unavailable'')) sample_state)
     = Inr (Str ''152.59.204.243'')"
    by (rule fallback) (simp add: failed_response_def resp_ok_def)
  have 3: "fst (getUserIP (ip_env unreadable_response) sample_state) = Inr (Str ''152.59.204.243'')"
    by (rule fallback) (simp add: unreadable_response_def)
  have 4: "fst (getUserIP (ip_env (ok_response ''<html>Bad Gateway</html>'')) sample_state)
     = Inr (Str ''152.59.204.243'')"
    by (rule fallback)
       (simp add: ok_response_def ip_env_def sample_env_parts sample_parse_values)
  from 1 2 3 4 show ?thesis by blast
qed

section \<open>Properties of the token cache\<close>

lemma log_event_simps [simp]:
  "clock (log_event ev s) = clock s"
  "cache (log_event ev s) = cache s"
  "trace (log_event ev s) = trace s @ [ev]"
  by (simp_all add: log_event_def)

lemma getCachedToken_fst:
  "fst (getCachedToken e s) =
     (if caches_api e = CachesWorking then
        (case cache s (cacheRequest e) of
           None \<Rightarrow> None
         | Some cd \<Rightarrow> if token cd \<noteq> [] \<and> clock s < expires cd then Some (token cd) else None)
      else None)"
  by (cases "caches_api e")
     (simp_all add: getCachedToken_def isCachesAPIAvailable_def Let_def split: option.splits)

lemma cacheToken_working:
  assumes "caches_api e = CachesWorking"
  shows "cache (cacheToken e tok s) = (cache s)(cacheRequest e \<mapsto>
           \<lparr> token = tok, expires = clock s + 600000 \<rparr>)"
    and "clock (cacheToken e tok s) = clock s"
  using assms
  by (simp_all add: cacheToken_def isCachesAPIAvailable_def GUEST_TOKEN_TTL_def Let_def)

lemma cache_absent_is_miss:
  assumes "caches_api e \<noteq> CachesWorking"
  shows "fst (getCachedToken e s) = None" and "cacheToken e tok s = s"
  using assms
  by (cases "caches_api e"; simp add: getCachedToken_fst cacheToken_def isCachesAPIAvailable_def)+

text \<open>
  Claim C3. With the cache present and working, and for every token the program can
  store (a token is stored only after the truthiness test of the exchange, so it is
  never empty: lemma \<open>stored_tokens_nonempty\<close> below), storing the token writes the
  entry with expiry the time of the store plus 600 seconds; a lookup immediately after
  the store returns that same token; a lookup at time \<open>t\<close> with that entry in place
  returns the token when \<open>t\<close> is before the expiry and nothing when \<open>t\<close> is at or past
  it; and any entry whose expiry is at or before the time of the lookup is treated as
  absent.
\<close>

theorem token_cache_store_then_lookup:
  assumes "caches_api e = CachesWorking" and "tok \<noteq> []"
  shows "cache (cacheToken e tok s) (cacheRequest e)
           = Some \<lparr> token = tok, expires = clock s + 600 * 1000 \<rparr> \<and>
         fst (getCachedToken e (cacheToken e tok s)) = Some tok \<and>
         (\<forall>t. fst (getCachedToken e ((cacheToken e tok s)\<lparr>clock := t\<rparr>))
                = (if t < clock s + 600 * 1000 then Some tok else None)) \<and>
         (\<forall>s' cd. cache s' (cacheRequest e) = Some cd \<and> expires cd \<le> clock s'
                \<longrightarrow> fst (getCachedToken e s') = None)"
proof (intro conjI allI impI)
  show "cache (cacheToken e tok s) (cacheRequest e)
          = Some \<lparr> token = tok, expires = clock s + 600 * 1000 \<rparr>"
    by (simp add: cacheToken_working(1) [OF assms(1)])
  show "fst (getCachedToken e (cacheToken e tok s)) = Some tok"
    by (simp add: getCachedToken_fst assms cacheToken_working [OF assms(1)])
  show "fst (getCachedToken e ((cacheToken e tok s)\<lparr>clock := t\<rparr>))
          = (if t < clock s + 600 * 1000 then Some tok else None)" for t
    by (simp add: getCachedToken_fst assms cacheToken_working(1) [OF assms(1)])
  show "fst (getCachedToken e s') = None"
    if "cache s' (cacheRequest e) = Some cd \<and> expires cd \<le> clock s'" for s' cd
    using that by (simp add: getCachedToken_fst)
qed

text \<open>
  The token \<^verbatim>\<open>tok-1\<close> stored at 1700000000000: found at once and one millisecond
  before the expiry, absent at the expiry; an entry that expires at 5000, looked up at
  5000, is absent.
\<close>

theorem token_cache_store_then_lookup_witness:
  "caches_api good_env = CachesWorking \<and> ''tok-1'' \<noteq> [] \<and>
   fst (getCachedToken good_env (cacheToken good_env ''tok-1'' sample_state)) = Some ''tok-1'' \<and>
   fst (getCachedToken good_env ((cacheToken good_env ''tok-1'' sample_state)\<lparr>clock := 1700000599999\<rparr>))
     = Some ''tok-1'' \<and>
   fst (getCachedToken good_env ((cacheToken good_env ''tok-1'' sample_state)\<lparr>clock := 1700000600000\<rparr>))
     = None \<and>
   fst (getCachedToken good_env
          \<lparr> clock = 5000, cache = [cacheRequest good_env \<mapsto> \<lparr> token = ''tok-0'', expires = 5000 \<rparr>],
            trace = [] \<rparr>) = None"
proof -
  have h: "caches_api good_env = CachesWorking"
    by (simp add: good_env_def sample_env_parts)
  have ne: "''tok-1'' \<noteq> []" by simp
  note inst = token_cache_store_then_lookup [OF h ne, of sample_state]
  have c: "clock sample_state = 1700000000000" by (simp add: sample_state_def)
  from inst have 1: "fst (getCachedToken good_env (cacheToken good_env ''tok-1'' sample_state)) = Some ''tok-1''"
    by blast
  from inst have at: "fst (getCachedToken good_env ((cacheToken good_env ''tok-1'' sample_state)\<lparr>clock := t\<rparr>))
      = (if t < clock sample_state + 600 * 1000 then Some ''tok-1'' else None)" for t
    by blast
  have 2: "fst (getCachedToken good_env ((cacheToken good_env ''tok-1'' sample_state)\<lparr>clock := 1700000599999\<rparr>))
     = Some ''tok-1''"
    using at [of 1700000599999] c by simp
  have 3: "fst (getCachedToken good_env ((cacheToken good_env ''tok-1'' sample_state)\<lparr>clock := 1700000600000\<rparr>))
     = None"
    using at [of 1700000600000] c by simp
  from inst have ex: "cache s' (cacheRequest good_env) = Some cd \<and> expires cd \<le> clock s'
      \<longrightarrow> fst (getCachedToken good_env s') = None" for s' cd
    by blast
  have 4: "fst (getCachedToken good_env
          \<lparr> clock = 5000, cache = [cacheRequest good_env \<mapsto> \<lparr> token = ''tok-0'', expires = 5000 \<rparr>],
            trace = [] \<rparr>) = None"
    using ex [of "\<lparr> clock = 5000, cache = [cacheRequest good_env \<mapsto> \<lparr> token = ''tok-0'', expires = 5000 \<rparr>],
            trace = [] \<rparr>" "\<lparr> token = ''tok-0'', expires = 5000 \<rparr>"]
    by simp
  from h 1 2 3 4 show ?thesis by simp
qed

section \<open>Properties of the guest authenticator\<close>

lemma getCachedToken_snd:
  "snd (getCachedToken e s) =
     (if caches_api e = CachesWorking then log_event (CacheMatch (cacheRequest e)) s else s)"
  by (cases "caches_api e")
     (simp_all add: getCachedToken_def isCachesAPIAvailable_def Let_def split: option.splits)

lemma getCachedToken_nonempty: "fst (getCachedToken e s) = Some t \<Longrightarrow> t \<noteq> []"
  by (auto simp: getCachedToken_fst split: if_splits option.splits)

lemma clock_after_lookup [simp]: "clock (snd (getCachedToken e s)) = clock s"
  by (simp add: getCachedToken_snd)

lemma token_of_response_fails:
  assumes "\<not> resp_ok r \<or> JSON_parse e (response_text r) = None \<or>
           (\<exists>data. JSON_parse e (response_text r) = Some data \<and>
              (\<forall>v. accessToken_of data = Inr v \<longrightarrow> \<not> truthy v))"
  shows "\<exists>err. token_of_response e r = Inl err"
  using assms by (auto simp: token_of_response_def split: sum.splits)

lemma token_of_response_nonempty: "token_of_response e r = Inr tok \<Longrightarrow> tok \<noteq> []"
  by (auto simp: token_of_response_def split: if_splits option.splits sum.splits js.splits)

lemma getGuestToken_try_miss:
  assumes "fst (getCachedToken e s) = None"
  shows "getGuestToken_try e s =
     (let s2 = log_event (Fetch ipRequest) (snd (getCachedToken e s));
          req = guestTokenRequest e (userIP_value e) (clock s);
          s3 = log_event (Fetch req) s2
      in case network e req of
           Rejected \<Rightarrow> (Inl NetworkError, s3)
         | Resolved r \<Rightarrow>
             (case token_of_response e r of
                Inl err \<Rightarrow> (Inl err, s3)
              | Inr tok \<Rightarrow> (Inr tok, cacheToken e tok s3)))"
proof -
  obtain c s1 where g: "getCachedToken e s = (c, s1)" by (cases "getCachedToken e s")
  with assms have c: "c = None" by simp
  have s1: "s1 = snd (getCachedToken e s)" using g by simp
  have ck: "clock s1 = clock s" unfolding s1 by simp
  show ?thesis
    unfolding getGuestToken_try_def g c
    by (simp add: getUserIP_eq do_fetch_def Let_def ck s1 [symmetric]
        split: fetch_result.splits sum.splits)
qed

lemma getGuestToken_try_hit:
  assumes "fst (getCachedToken e s) = Some t"
  shows "getGuestToken_try e s = (Inr t, snd (getCachedToken e s))"
proof -
  obtain c s1 where g: "getCachedToken e s = (c, s1)" by (cases "getCachedToken e s")
  with assms have c: "c = Some t" by simp
  have "t \<noteq> []" by (rule getCachedToken_nonempty [OF assms])
  then show ?thesis
    unfolding getGuestToken_try_def g c by simp
qed

lemma getGuestToken_nonempty:
  assumes "fst (getGuestToken e s) = Inr tok"
  shows "tok \<noteq> []"
proof (cases "fst (getCachedToken e s)")
  case None
  from assms show ?thesis
    unfolding getGuestToken_def getGuestToken_try_miss [OF None]
    by (auto simp: Let_def token_of_response_nonempty split: fetch_result.splits sum.splits)
next
  case (Some t)
  from assms have "tok = t"
    unfolding getGuestToken_def getGuestToken_try_hit [OF Some] by simp
  then show ?thesis using getCachedToken_nonempty [OF Some] by simp
qed

text \<open>
  Every token a run of \<^verbatim>\<open>getGuestToken\<close> writes to the cache is non-empty: the only
  call of \<^verbatim>\<open>cacheToken\<close> follows the truthiness test of the access token.
\<close>

lemma stored_tokens_nonempty:
  assumes "CachePut k cd \<in> set (trace (snd (getGuestToken e s)))"
  shows "CachePut k cd \<in> set (trace s) \<or> token cd \<noteq> []"
proof (cases "fst (getCachedToken e s)")
  case (Some t)
  have "snd (getGuestToken e s) = snd (getCachedToken e s)"
    unfolding getGuestToken_def getGuestToken_try_hit [OF Some] by simp
  with assms show ?thesis by (simp add: getCachedToken_snd split: if_splits)
next
  case None
  let ?req = "guestTokenRequest e (userIP_value e) (clock s)"
  let ?s3 = "log_event (Fetch ?req) (log_event (Fetch ipRequest) (snd (getCachedToken e s)))"
  have old: "CachePut k cd \<in> set (trace ?s3) \<Longrightarrow> CachePut k cd \<in> set (trace s)"
    by (simp add: getCachedToken_snd split: if_splits)
  have "snd (getGuestToken e s) = ?s3 \<or>
        (\<exists>tok. tok \<noteq> [] \<and> snd (getGuestToken e s) = cacheToken e tok ?s3)"
  proof (cases "network e ?req")
    case Rejected
    then show ?thesis
      unfolding getGuestToken_def getGuestToken_try_miss [OF None] by (simp add: Let_def)
  next
    case (Resolved r)
    show ?thesis
    proof (cases "token_of_response e r")
      case (Inl err)
      with Resolved show ?thesis
        unfolding getGuestToken_def getGuestToken_try_miss [OF None] by (simp add: Let_def)
    next
      case (Inr tok)
      then have "tok \<noteq> []" by (rule token_of_response_nonempty)
      moreover have "snd (getGuestToken e s) = cacheToken e tok ?s3"
        using Resolved Inr
        unfolding getGuestToken_def getGuestToken_try_miss [OF None] by (simp add: Let_def)
      ultimately show ?thesis by blast
    qed
  qed
  then show ?thesis
  proof
    assume "snd (getGuestToken e s) = ?s3"
    with assms old show ?thesis by simp
  next
    assume "\<exists>tok. tok \<noteq> [] \<and> snd (getGuestToken e s) = cacheToken e tok ?s3"
    then obtain tok where tok: "tok \<noteq> []" and g: "snd (getGuestToken e s) = cacheToken e tok ?s3"
      by blast
    have "trace (cacheToken e tok ?s3) = trace ?s3 \<or>
          trace (cacheToken e tok ?s3) = trace ?s3 @
            [CachePut (cacheRequest e) \<lparr> token = tok, expires = clock ?s3 + GUEST_TOKEN_TTL * 1000 \<rparr>]"
      by (simp add: cacheToken_def Let_def)
    with assms g old tok show ?thesis by auto
  qed
qed

text \<open>
  Claim C2, as amended. When the cache has no live token and the exchange answers with
  a status outside 200..299, or with a body that is not JSON, or with a body whose
  \<^verbatim>\<open>data.token.accessToken\<close> is missing or falsy, \<^verbatim>\<open>getGuestToken\<close> fails, and the
  error it throws is always \<^verbatim>\<open>Error('Failed to authenticate with API')\<close>: the status
  and the body are not in it. No run of \<^verbatim>\<open>getGuestToken\<close> returns an empty token.
\<close>

theorem guest_token_exchange_failure:
  assumes "fst (getCachedToken e s) = None"
    and "network e (guestTokenRequest e (userIP_value e) (clock s)) = Resolved response"
    and "\<not> resp_ok response \<or> JSON_parse e (response_text response) = None \<or>
         (\<exists>data. JSON_parse e (response_text response) = Some data \<and>
            (\<forall>v. accessToken_of data = Inr v \<longrightarrow> \<not> truthy v))"
  shows "fst (getGuestToken e s) = Inl (Error ''Failed to authenticate with API'') \<and>
         (\<forall>e' s' tok. fst (getGuestToken e' s') = Inr tok \<longrightarrow> tok \<noteq> [])"
proof
  obtain err where "token_of_response e response = Inl err"
    using token_of_response_fails [OF assms(3)] by blast
  then show "fst (getGuestToken e s) = Inl (Error ''Failed to authenticate with API'')"
    unfolding getGuestToken_def getGuestToken_try_miss [OF assms(1)]
    by (simp add: Let_def assms(2))
  show "\<forall>e' s' tok. fst (getGuestToken e' s') = Inr tok \<longrightarrow> tok \<noteq> []"
    using getGuestToken_nonempty by blast
qed

lemma sample_state_miss: "fst (getCachedToken e sample_state) = None"
  by (simp add: getCachedToken_fst sample_state_def)

text \<open>A 500, a body that is not JSON, a body without the access token.\<close>

theorem guest_token_exchange_failure_witness:
  "fst (getGuestToken (token_env (failed_response 500 ''upstream down'')) sample_state)
     = Inl (Error ''Failed to authenticate with API'') \<and>
   fst (getGuestToken (token_env (ok_response ''<html>Bad Gateway</html>'')) sample_state)
     = Inl (Error ''Failed to authenticate with API'') \<and>
   fst (getGuestToken (token_env (ok_response no_access_text)) sample_state)
     = Inl (Error ''Failed to authenticate with API'')"
proof -
  have fails: "fst (getGuestToken (token_env (Resolved r)) sample_state)
      = Inl (Error ''Failed to authenticate with API'')"
    if "\<not> resp_ok r \<or> JSON_parse (token_env (Resolved r)) (response_text r) = None \<or>
         (\<exists>data. JSON_parse (token_env (Resolved r)) (response_text r) = Some data \<and>
            (\<forall>v. accessToken_of data = Inr v \<longrightarrow> \<not> truthy v))" for r
    using guest_token_exchange_failure [OF sample_state_miss token_env_answer that]
    by blast
  have p: "JSON_parse (token_env a) = sample_parse" for a
    by (simp add: token_env_def sample_env_parts)
  have 1: "fst (getGuestToken (token_env (failed_response 500 ''upstream down'')) sample_state)
     = Inl (Error ''Failed to authenticate with API'')"
    unfolding failed_response_def by (rule fails) (simp add: resp_ok_def)
  have 2: "fst (getGuestToken (token_env (ok_response ''<html>Bad Gateway</html>'')) sample_state)
     = Inl (Error ''Failed to authenticate with API'')"
    unfolding ok_response_def
    by (rule fails) (simp add: p response_text_def sample_parse_values)
  have "sample_parse no_access_text = Some (Obj [(''data'', Obj [(''token'', Obj [])])])"
    by (simp add: sample_parse_values)
  moreover have "accessToken_of (Obj [(''data'', Obj [(''token'', Obj [])])]) = Inr Undefined"
    by (simp add: accessToken_of_def opt_prop_def)
  ultimately have 3: "fst (getGuestToken (token_env (ok_response no_access_text)) sample_state)
     = Inl (Error ''Failed to authenticate with API'')"
    unfolding ok_response_def
    by (intro fails) (simp add: p response_text_def)
  from 1 2 3 show ?thesis by blast
qed

text \<open>
  The error does not carry the status or the body: a 500 with body \<^verbatim>\<open>upstream down\<close>
  and a 401 with body \<^verbatim>\<open>denied\<close> end in the same error value.
\<close>

theorem guest_token_error_counterexample:
  "fst (getGuestToken (token_env (failed_response 500 ''upstream down'')) sample_state)
     = Inl (Error ''Failed to authenticate with API'') \<and>
   fst (getGuestToken (token_env (failed_response 401 ''denied'')) sample_state)
     = Inl (Error ''Failed to authenticate with API'')"
proof -
  have "fst (getGuestToken (token_env (failed_response code body)) sample_state)
      = Inl (Error ''Failed to authenticate with API'')" if "code = 500 \<or> code = 401" for code body
    unfolding getGuestToken_def getGuestToken_try_miss [OF sample_state_miss]
    using that
    by (auto simp: Let_def token_env_answer failed_response_def token_of_response_def resp_ok_def)
  then show ?thesis by simp
qed

section \<open>Properties of the seller fetch\<close>

lemma getSellerData_with_token:
  assumes "getGuestToken e s = (Inr tok, s1)"
  shows "getSellerData e rid s =
     (case network e (sellerRequest e (finalRequestId rid) tok) of
        Rejected \<Rightarrow> Inl NetworkError
      | Resolved r \<Rightarrow> seller_of_response e r,
      log_event (Fetch (sellerRequest e (finalRequestId rid) tok)) s1)"
  unfolding getSellerData_def assms
  by (simp add: do_fetch_def split: fetch_result.splits)

lemma getSellerData_without_token:
  assumes "getGuestToken e s = (Inl err, s1)"
  shows "getSellerData e rid s = (Inl err, s1)"
  unfolding getSellerData_def assms by simp

lemma seller_of_response_missing:
  assumes "resp_ok r" "JSON_parse e (response_text r) = Some data" "seller_data_missing data"
  shows "seller_of_response e r =
           Inl (case get_prop data ''data'' of
                  Inl err \<Rightarrow> err
                | Inr d \<Rightarrow> Error ''Invalid seller data response: data array is empty or missing'')"
proof (cases "get_prop data ''data''")
  case (Inl err)
  then show ?thesis by (simp add: seller_of_response_def assms(1,2))
next
  case (Inr d)
  with assms(3) have "d = Undefined \<or> \<not> isArray d \<or> d = Arr []"
    by (simp add: seller_data_missing_def)
  then have "\<not> truthy d \<or> \<not> isArray d \<or> get_prop d ''length'' = Inr (Num (Fin 0))"
    by auto
  then show ?thesis by (simp add: seller_of_response_def assms(1,2) Inr)
qed

lemma seller_data_present:
  assumes "\<not> seller_data_missing data"
  shows "\<exists>first rest. get_prop data ''data'' = Inr (Arr (first # rest))"
proof (cases "get_prop data ''data''")
  case (Inl err)
  with assms show ?thesis by (simp add: seller_data_missing_def)
next
  case (Inr d)
  with assms have "isArray d" "d \<noteq> Arr []" by (simp_all add: seller_data_missing_def)
  then obtain first rest where "d = Arr (first # rest)"
    by (cases d; simp) (metis list.exhaust)
  with Inr show ?thesis by simp
qed

lemma seller_of_response_present:
  assumes "resp_ok r" "JSON_parse e (response_text r) = Some data"
    and "get_prop data ''data'' = Inr (Arr (first # rest))"
  shows "seller_of_response e r = then_do (seller_log_lines first) (\<lambda>_. Inr data)"
  by (simp add: seller_of_response_def assms)

lemma products_of_seller_first:
  assumes "get_prop data ''data'' = Inr (Arr (first # rest))"
  shows "products_of_seller data = products_of_entry first"
  by (simp add: products_of_seller_def assms)

text \<open>
  Claim C6. With a token obtained and a seller response of status 200..299 whose body
  parses: when the \<^verbatim>\<open>data\<close> field is missing, not an array or an empty array,
  \<^verbatim>\<open>getSellerData\<close> fails (with the error of the validation, or with the
  \<^verbatim>\<open>TypeError\<close> of reading a field of \<^verbatim>\<open>null\<close>); otherwise \<^verbatim>\<open>data\<close> is an array
  with a first entry, \<^verbatim>\<open>getSellerData\<close> returns the response as soon as its reads
  through that first entry succeed, and what \<^verbatim>\<open>getProducts\<close> makes of the response
  depends on that first entry only.
\<close>

theorem seller_data_validation:
  assumes "getGuestToken e s = (Inr tok, s1)"
    and "network e (sellerRequest e (finalRequestId rid) tok) = Resolved response"
    and "resp_ok response"
    and "JSON_parse e (response_text response) = Some data"
  shows "(seller_data_missing data \<longrightarrow>
            fst (getSellerData e rid s) =
              Inl (case get_prop data ''data'' of
                     Inl err \<Rightarrow> err
                   | Inr d \<Rightarrow> Error ''Invalid seller data response: data array is empty or missing'')) \<and>
         (\<not> seller_data_missing data \<longrightarrow>
            (\<exists>first rest. get_prop data ''data'' = Inr (Arr (first # rest)) \<and>
               fst (getSellerData e rid s) = then_do (seller_log_lines first) (\<lambda>_. Inr data) \<and>
               products_of_seller data = products_of_entry first))"
proof (intro conjI impI)
  have g: "fst (getSellerData e rid s) = seller_of_response e response"
    by (simp add: getSellerData_with_token [OF assms(1)] assms(2))
  show "fst (getSellerData e rid s) =
          Inl (case get_prop data ''data'' of
                 Inl err \<Rightarrow> err
               | Inr d \<Rightarrow> Error ''Invalid seller data response: data array is empty or missing'')"
    if "seller_data_missing data"
    unfolding g by (rule seller_of_response_missing [OF assms(3,4) that])
  show "\<exists>first rest. get_prop data ''data'' = Inr (Arr (first # rest)) \<and>
          fst (getSellerData e rid s) = then_do (seller_log_lines first) (\<lambda>_. Inr data) \<and>
          products_of_seller data = products_of_entry first"
    if present: "\<not> seller_data_missing data"
  proof -
    obtain first rest where d: "get_prop data ''data'' = Inr (Arr (first # rest))"
      using seller_data_present [OF present] by blast
    show ?thesis
      using d seller_of_response_present [OF assms(3,4) d] products_of_seller_first [OF d]
      unfolding g by blast
  qed
qed

lemma sample_token_response:
  "token_of_response (sample_env c ip tk sl ct) \<lparr> resp_status = 200, resp_statusText = ''OK'',
      resp_body = Some token_text \<rparr> = Inr ''tok-1''"
  by (simp add: token_of_response_def resp_ok_def response_text_def sample_env_parts
      sample_parse_values accessToken_of_def opt_prop_def)

lemma sample_token:
  "fst (getGuestToken (sample_env c ip (ok_response token_text) sl ct) sample_state) = Inr ''tok-1''"
  unfolding getGuestToken_def getGuestToken_try_miss [OF sample_state_miss]
  by (simp add: Let_def sample_env_answers ok_response_def sample_token_response)

lemma seller_env_token:
  "getGuestToken (seller_env a) sample_state
     = (Inr ''tok-1'', snd (getGuestToken (seller_env a) sample_state))"
  using sample_token by (simp add: seller_env_def prod_eq_iff)

lemma seller_entry_log_lines:
  "seller_log_lines (seller_entry (Obj [(''products'', Arr [seller_product])])) = Inr ()"
  "seller_log_lines (seller_entry (Obj [(''products'', Arr [])])) = Inr ()"
  "seller_log_lines (seller_entry (Obj [])) = Inl TypeError"
  by (simp_all add: seller_log_lines_def seller_entry_def seller_product_def)

text \<open>
  An empty array, no \<^verbatim>\<open>data\<close> field, a \<^verbatim>\<open>data\<close> field that is a string: each fails.
  The good response is returned, and its products come from its only entry.
\<close>

theorem seller_data_validation_witness:
  "fst (getSellerData (seller_env (ok_response empty_data_text)) None sample_state)
     = Inl (Error ''Invalid seller data response: data array is empty or missing'') \<and>
   fst (getSellerData (seller_env (ok_response no_data_text)) None sample_state)
     = Inl (Error ''Invalid seller data response: data array is empty or missing'') \<and>
   fst (getSellerData (seller_env (ok_response data_not_array_text)) None sample_state)
     = Inl (Error ''Invalid seller data response: data array is empty or missing'') \<and>
   fst (getSellerData (seller_env (ok_response seller_text)) None sample_state) = Inr seller_value \<and>
   products_of_seller seller_value
     = products_of_entry (seller_entry (Obj [(''products'', Arr [seller_product])]))"
proof -
  have inst: "(seller_data_missing data \<longrightarrow>
            fst (getSellerData (seller_env (ok_response t)) None sample_state) =
              Inl (case get_prop data ''data'' of
                     Inl err \<Rightarrow> err
                   | Inr d \<Rightarrow> Error ''Invalid seller data response: data array is empty or missing'')) \<and>
         (\<not> seller_data_missing data \<longrightarrow>
            (\<exists>first rest. get_prop data ''data'' = Inr (Arr (first # rest)) \<and>
               fst (getSellerData (seller_env (ok_response t)) None sample_state)
                 = then_do (seller_log_lines first) (\<lambda>_. Inr data) \<and>
               products_of_seller data = products_of_entry first))"
    if parsed: "sample_parse t = Some data" for t data
  proof -
    let ?r = "\<lparr> resp_status = 200, resp_statusText = ''OK'', resp_body = Some t \<rparr>"
    have net: "network (seller_env (ok_response t))
                 (sellerRequest (seller_env (ok_response t)) (finalRequestId None) ''tok-1'')
               = Resolved ?r"
      by (simp add: seller_env_answer ok_response_def)
    have ok: "resp_ok ?r" by (simp add: resp_ok_def)
    have parse: "JSON_parse (seller_env (ok_response t)) (response_text ?r) = Some data"
      by (simp add: response_text_def seller_env_def sample_env_parts parsed)
    from seller_data_validation [OF seller_env_token net ok parse] show ?thesis .
  qed
  have 1: "fst (getSellerData (seller_env (ok_response empty_data_text)) None sample_state)
     = Inl (Error ''Invalid seller data response: data array is empty or missing'')"
    using inst [OF sample_parse_values(7)] by (simp add: seller_data_missing_def)
  have 2: "fst (getSellerData (seller_env (ok_response no_data_text)) None sample_state)
     = Inl (Error ''Invalid seller data response: data array is empty or missing'')"
    using inst [OF sample_parse_values(8)] by (simp add: seller_data_missing_def)
  have 3: "fst (getSellerData (seller_env (ok_response data_not_array_text)) None sample_state)
     = Inl (Error ''Invalid seller data response: data array is empty or missing'')"
    using inst [OF sample_parse_values(9)] by (simp add: seller_data_missing_def)
  have present: "\<not> seller_data_missing seller_value"
    by (simp add: seller_data_missing_def seller_value_def)
  from inst [OF sample_parse_values(4)] present obtain first rest where
    d: "get_prop seller_value ''data'' = Inr (Arr (first # rest))"
    and g: "fst (getSellerData (seller_env (ok_response seller_text)) None sample_state)
              = then_do (seller_log_lines first) (\<lambda>_. Inr seller_value)"
    and p: "products_of_seller seller_value = products_of_entry first"
    by blast
  from d have first: "first = seller_entry (Obj [(''products'', Arr [seller_product])])"
    by (simp add: seller_value_def)
  have 4: "fst (getSellerData (seller_env (ok_response seller_text)) None sample_state) = Inr seller_value"
    using g by (simp add: first seller_entry_log_lines)
  from 1 2 3 4 p first show ?thesis by simp
qed

lemma getProducts_via_seller:
  "getProducts e s =
     (case fst (getSellerData e None s) of
        Inl err \<Rightarrow> Inl err
      | Inr d \<Rightarrow> products_of_seller d,
      snd (getSellerData e None s))"
  by (cases "getSellerData e None s") (auto simp: getProducts_def split: sum.splits)

lemma seller_env_result:
  assumes "sample_parse t = Some data" "get_prop data ''data'' = Inr (Arr (first # rest))"
  shows "fst (getSellerData (seller_env (ok_response t)) None sample_state)
           = then_do (seller_log_lines first) (\<lambda>_. Inr data)"
proof -
  let ?r = "\<lparr> resp_status = 200, resp_statusText = ''OK'', resp_body = Some t \<rparr>"
  have "fst (getSellerData (seller_env (Resolved ?r)) None sample_state)
          = seller_of_response (seller_env (Resolved ?r)) ?r"
    by (simp add: getSellerData_with_token [OF seller_env_token] seller_env_answer)
  also have "\<dots> = then_do (seller_log_lines first) (\<lambda>_. Inr data)"
    by (rule seller_of_response_present [where rest = rest])
       (simp_all add: resp_ok_def response_text_def seller_env_def sample_env_parts assms)
  finally show ?thesis by (simp add: ok_response_def)
qed

text \<open>
  Claim C7, at the input where the code departs from it. The seller response is valid
  and its first entry has an \<^verbatim>\<open>amazon_data\<close> without \<^verbatim>\<open>products\<close>. The
  \<^verbatim>\<open>console.log\<close> of \<^verbatim>\<open>sellerInfo.amazon_data.products.length\<close> in \<^verbatim>\<open>getSellerData\<close>
  throws, so \<^verbatim>\<open>getProducts\<close> fails with a \<^verbatim>\<open>TypeError\<close>, although its own guard
  (\<^verbatim>\<open>?.products\<close>, \<^verbatim>\<open>!amazonProducts\<close>) would have answered this very response with
  the empty list.
\<close>

theorem absent_product_list_throws:
  "fst (getSellerData (seller_env (ok_response no_products_text)) None sample_state) = Inl TypeError \<and>
   fst (getProducts (seller_env (ok_response no_products_text)) sample_state) = Inl TypeError \<and>
   products_of_seller (Obj [(''data'', Arr [seller_entry (Obj [])])]) = Inr (productsResponse [])"
proof -
  have "fst (getSellerData (seller_env (ok_response no_products_text)) None sample_state) = Inl TypeError"
    using seller_env_result [OF sample_parse_values(6)]
    by (simp add: seller_entry_log_lines)
  moreover have "products_of_seller (Obj [(''data'', Arr [seller_entry (Obj [])])])
      = Inr (productsResponse [])"
    by (simp add: products_of_seller_def products_of_entry_def seller_entry_def opt_prop_def)
  ultimately show ?thesis by (simp add: getProducts_via_seller)
qed

text \<open>With an empty product list the answer is the empty catalog, as the claim says.\<close>

lemma empty_product_list_sample:
  "fst (getProducts (seller_env (ok_response empty_products_text)) sample_state)
     = Inr (productsResponse [])"
proof -
  have "fst (getSellerData (seller_env (ok_response empty_products_text)) None sample_state)
      = Inr (Obj [(''data'', Arr [seller_entry (Obj [(''products'', Arr [])])])])"
    using seller_env_result [OF sample_parse_values(5)]
    by (simp add: seller_entry_log_lines)
  moreover have "products_of_seller (Obj [(''data'', Arr [seller_entry (Obj [(''products'', Arr [])])])])
      = Inr (productsResponse [])"
    by (simp add: products_of_seller_def products_of_entry_def seller_entry_def opt_prop_def)
  ultimately show ?thesis by (simp add: getProducts_via_seller)
qed


section \<open>Properties of the catalog fetch\<close>

lemma dropWhile_all_iff: "(\<forall>x\<in>set (dropWhile P xs). P x) \<longleftrightarrow> (\<forall>x\<in>set xs. P x)"
proof
  assume all: "\<forall>x\<in>set (dropWhile P xs). P x"
  have "dropWhile P xs = []"
  proof (cases "dropWhile P xs")
    case Nil
    then show ?thesis .
  next
    case (Cons c cs)
    then have "\<not> P c" using hd_dropWhile [of P xs] by simp
    moreover have "P c" using all Cons by simp
    ultimately show ?thesis by simp
  qed
  then show "\<forall>x\<in>set xs. P x" by simp
next
  assume "\<forall>x\<in>set xs. P x"
  then show "\<forall>x\<in>set (dropWhile P xs). P x" by (auto dest: set_dropWhileD)
qed

lemma trim_Nil_iff: "trim a = [] \<longleftrightarrow> blank a"
proof -
  have "trim a = [] \<longleftrightarrow> (\<forall>x\<in>set (dropWhile is_ws a). is_ws x)"
    by (simp add: trim_def)
  also have "\<dots> \<longleftrightarrow> (\<forall>x\<in>set a. is_ws x)" by (rule dropWhile_all_iff)
  also have "\<dots> \<longleftrightarrow> blank a" by (simp add: blank_def list_all_iff)
  finally show ?thesis .
qed

lemma blank_Nil [simp]: "blank []"
  by (simp add: blank_def)

lemma valid_asin_iff: "(a \<noteq> [] \<and> length (trim a) > 0) \<longleftrightarrow> \<not> blank a"
  using trim_Nil_iff [of a] by (cases a) auto

lemma validAsins_eq:
  "filter (\<lambda>asin. asin \<noteq> [] \<and> length (trim asin) > 0) as = filter (\<lambda>a. \<not> blank a) as"
  by (simp only: valid_asin_iff)

lemma filter_not_blank_Nil: "filter (\<lambda>a. \<not> blank a) as = [] \<longleftrightarrow> list_all blank as"
  by (induction as) simp_all

lemma getGuestToken_marks_trace: "trace (snd (getGuestToken e s)) \<noteq> trace s"
proof (cases "fst (getCachedToken e s)")
  case None
  show ?thesis
    unfolding getGuestToken_def getGuestToken_try_miss [OF None]
    by (simp add: Let_def getCachedToken_snd cacheToken_def
        split: fetch_result.splits sum.splits)
next
  case (Some t)
  then have "caches_api e = CachesWorking"
    by (simp add: getCachedToken_fst split: if_splits)
  then show ?thesis
    unfolding getGuestToken_def getGuestToken_try_hit [OF Some]
    by (simp add: getCachedToken_snd)
qed

text \<open>
  Claim C9. When the argument of \<^verbatim>\<open>getAmazonProductData\<close> is \<^verbatim>\<open>null\<close> or
  \<^verbatim>\<open>undefined\<close>, or a list (the empty one included) in which every identifier is empty
  or white space only, the answer is \<^verbatim>\<open>{products: [], total: 0}\<close> and the state is
  unchanged: nothing was looked up, fetched or stored. (Every token acquisition leaves
  a mark in the trace, the third part.) Otherwise, once the token is there, the one
  request made is the POST to the catalog endpoint whose body lists the identifiers
  that are not blank, in their order.
\<close>

theorem blank_asins_answered_locally:
  "((asins = None \<or> list_all blank (the asins)) \<longrightarrow>
      getAmazonProductData e asins s = (Inr emptyAmazonProducts, s)) \<and>
   (\<forall>tok s1. asins \<noteq> None \<and> \<not> list_all blank (the asins) \<and>
        getGuestToken e s = (Inr tok, s1) \<longrightarrow>
      snd (getAmazonProductData e asins s)
        = log_event (Fetch (amazonRequest e tok (filter (\<lambda>a. \<not> blank a) (the asins)))) s1 \<and>
      req_body (amazonRequest e tok (filter (\<lambda>a. \<not> blank a) (the asins)))
        = Some (Obj [(''asins'', Arr (map Str (filter (\<lambda>a. \<not> blank a) (the asins))))])) \<and>
   (\<forall>e' s'. trace (snd (getGuestToken e' s')) \<noteq> trace s')"
proof (intro conjI allI impI)
  show "getAmazonProductData e asins s = (Inr emptyAmazonProducts, s)"
    if "asins = None \<or> list_all blank (the asins)"
    using that unfolding getAmazonProductData_def validAsins_eq
    by (auto simp: filter_not_blank_Nil Let_def)
  show "trace (snd (getGuestToken e' s')) \<noteq> trace s'" for e' s'
    by (rule getGuestToken_marks_trace)
  fix tok s1
  assume a: "asins \<noteq> None \<and> \<not> list_all blank (the asins) \<and> getGuestToken e s = (Inr tok, s1)"
  then have ne: "the asins \<noteq> []" "filter (\<lambda>a. \<not> blank a) (the asins) \<noteq> []"
    by (auto simp: filter_not_blank_Nil)
  show "snd (getAmazonProductData e asins s)
        = log_event (Fetch (amazonRequest e tok (filter (\<lambda>a. \<not> blank a) (the asins)))) s1"
    using a ne unfolding getAmazonProductData_def validAsins_eq
    by (auto simp: Let_def do_fetch_def split: fetch_result.splits)
  show "req_body (amazonRequest e tok (filter (\<lambda>a. \<not> blank a) (the asins)))
        = Some (Obj [(''asins'', Arr (map Str (filter (\<lambda>a. \<not> blank a) (the asins))))])"
    by (simp add: amazonRequest_def)
qed

lemma good_env_token:
  "getGuestToken good_env sample_state = (Inr ''tok-1'', snd (getGuestToken good_env sample_state))"
  using sample_token by (simp add: good_env_def prod_eq_iff)

text \<open>
  No argument, the empty list, a list of blank identifiers: answered on the spot. A
  list with one real identifier: only that one is sent.
\<close>

theorem blank_asins_answered_locally_witness:
  "getAmazonProductData good_env None sample_state = (Inr emptyAmazonProducts, sample_state) \<and>
   getAmazonProductData good_env (Some []) sample_state = (Inr emptyAmazonProducts, sample_state) \<and>
   getAmazonProductData good_env (Some ['''', ''  '', [CHR 0x09, CHR '' '']]) sample_state
     = (Inr emptyAmazonProducts, sample_state) \<and>
   snd (getAmazonProductData good_env (Some [''B08N5WRWNW'', ''  '', '''']) sample_state)
     = log_event (Fetch (amazonRequest good_env ''tok-1'' [''B08N5WRWNW'']))
         (snd (getGuestToken good_env sample_state)) \<and>
   req_body (amazonRequest good_env ''tok-1'' [''B08N5WRWNW''])
     = Some (Obj [(''asins'', Arr [Str ''B08N5WRWNW''])])"
proof -
  have b: "blank ''''" "blank ''  ''" "blank [CHR 0x09, CHR '' '']" "\<not> blank ''B08N5WRWNW''"
    by (simp_all add: blank_def is_ws_def)
  have 1: "getAmazonProductData good_env None sample_state = (Inr emptyAmazonProducts, sample_state)"
    using blank_asins_answered_locally [of None good_env sample_state] by simp
  have 2: "getAmazonProductData good_env (Some []) sample_state = (Inr emptyAmazonProducts, sample_state)"
    using blank_asins_answered_locally [of "Some []" good_env sample_state] by simp
  have 3: "getAmazonProductData good_env (Some ['''', ''  '', [CHR 0x09, CHR '' '']]) sample_state
     = (Inr emptyAmazonProducts, sample_state)"
    using blank_asins_answered_locally [of "Some ['''', ''  '', [CHR 0x09, CHR '' '']]" good_env sample_state] b
    by simp
  have f: "filter (\<lambda>a. \<not> blank a) [''B08N5WRWNW'', ''  '', ''''] = [''B08N5WRWNW'']"
    using b by simp
  have "Some [''B08N5WRWNW'', ''  '', ''''] \<noteq> None \<and>
        \<not> list_all blank (the (Some [''B08N5WRWNW'', ''  '', ''''])) \<and>
        getGuestToken good_env sample_state = (Inr ''tok-1'', snd (getGuestToken good_env sample_state))"
    using b good_env_token by simp
  with blank_asins_answered_locally [of "Some [''B08N5WRWNW'', ''  '', '''']" good_env sample_state]
  have "snd (getAmazonProductData good_env (Some [''B08N5WRWNW'', ''  '', '''']) sample_state)
      = log_event (Fetch (amazonRequest good_env ''tok-1''
          (filter (\<lambda>a. \<not> blank a) (the (Some [''B08N5WRWNW'', ''  '', ''''])))))
          (snd (getGuestToken good_env sample_state)) \<and>
      req_body (amazonRequest good_env ''tok-1''
          (filter (\<lambda>a. \<not> blank a) (the (Some [''B08N5WRWNW'', ''  '', '''']))))
        = Some (Obj [(''asins'', Arr (map Str
            (filter (\<lambda>a. \<not> blank a) (the (Some [''B08N5WRWNW'', ''  '', ''''])))))])"
    by blast
  then have 4: "snd (getAmazonProductData good_env (Some [''B08N5WRWNW'', ''  '', '''']) sample_state)
     = log_event (Fetch (amazonRequest good_env ''tok-1'' [''B08N5WRWNW'']))
         (snd (getGuestToken good_env sample_state)) \<and>
   req_body (amazonRequest good_env ''tok-1'' [''B08N5WRWNW''])
     = Some (Obj [(''asins'', Arr [Str ''B08N5WRWNW''])])"
    using f by simp
  from 1 2 3 4 show ?thesis by blast
qed

section \<open>Properties of the product list\<close>

lemma fetched_urls_simps [simp]:
  "fetched_urls [] = []"
  "fetched_urls (Fetch r # evs) = req_url r # fetched_urls evs"
  "fetched_urls (CacheMatch k # evs) = fetched_urls evs"
  "fetched_urls (CachePut k cd # evs) = fetched_urls evs"
  "fetched_urls (xs @ ys) = fetched_urls xs @ fetched_urls ys"
  by (simp_all add: fetched_urls_def)

lemma cacheToken_trace:
  "\<exists>evs. trace (cacheToken e tok s) = trace s @ evs \<and> fetched_urls evs = []"
proof (cases "caches_api e = CachesWorking")
  case True
  then have "trace (cacheToken e tok s)
      = trace s @ [CachePut (cacheRequest e) \<lparr> token = tok, expires = clock s + GUEST_TOKEN_TTL * 1000 \<rparr>]"
    by (simp add: cacheToken_def isCachesAPIAvailable_def Let_def)
  then show ?thesis by simp
next
  case False
  then have "cacheToken e tok s = s"
    by (cases "caches_api e") (simp_all add: cacheToken_def isCachesAPIAvailable_def)
  then show ?thesis by simp
qed

lemma getCachedToken_trace:
  "\<exists>evs. trace (snd (getCachedToken e s)) = trace s @ evs \<and> fetched_urls evs = []"
proof (cases "caches_api e = CachesWorking")
  case True
  then have "trace (snd (getCachedToken e s)) = trace s @ [CacheMatch (cacheRequest e)]"
    by (simp add: getCachedToken_snd)
  then show ?thesis by simp
next
  case False
  then show ?thesis by (simp add: getCachedToken_snd)
qed

lemma getGuestToken_trace:
  "\<exists>evs. trace (snd (getGuestToken e s)) = trace s @ evs \<and>
         set (fetched_urls evs) \<subseteq> {IP_API_URL, tokenUrl e}"
proof -
  obtain evs0 where c: "trace (snd (getCachedToken e s)) = trace s @ evs0" "fetched_urls evs0 = []"
    using getCachedToken_trace by blast
  show ?thesis
  proof (cases "fst (getCachedToken e s)")
    case (Some t)
    have "snd (getGuestToken e s) = snd (getCachedToken e s)"
      unfolding getGuestToken_def getGuestToken_try_hit [OF Some] by simp
    with c show ?thesis by simp
  next
    case None
    let ?req = "guestTokenRequest e (userIP_value e) (clock s)"
    let ?s3 = "log_event (Fetch ?req) (log_event (Fetch ipRequest) (snd (getCachedToken e s)))"
    have t3: "trace ?s3 = trace s @ (evs0 @ [Fetch ipRequest, Fetch ?req])"
      by (simp add: c)
    have u3: "fetched_urls (evs0 @ [Fetch ipRequest, Fetch ?req]) = [IP_API_URL, tokenUrl e]"
      by (simp add: c ipRequest_def guestTokenRequest_def)
    have "snd (getGuestToken e s) = ?s3 \<or> (\<exists>tok. snd (getGuestToken e s) = cacheToken e tok ?s3)"
      unfolding getGuestToken_def getGuestToken_try_miss [OF None]
      by (auto simp: Let_def split: fetch_result.splits sum.splits)
    then show ?thesis
    proof
      assume "snd (getGuestToken e s) = ?s3"
      with t3 u3 show ?thesis by (intro exI [of _ "evs0 @ [Fetch ipRequest, Fetch ?req]"]) simp
    next
      assume "\<exists>tok. snd (getGuestToken e s) = cacheToken e tok ?s3"
      then obtain tok where g: "snd (getGuestToken e s) = cacheToken e tok ?s3" by blast
      obtain evs1 where e1: "trace (cacheToken e tok ?s3) = trace ?s3 @ evs1" "fetched_urls evs1 = []"
        using cacheToken_trace by blast
      have "trace (snd (getGuestToken e s)) = trace s @ ((evs0 @ [Fetch ipRequest, Fetch ?req]) @ evs1)"
        unfolding g e1(1) t3 by simp
      moreover have "fetched_urls ((evs0 @ [Fetch ipRequest, Fetch ?req]) @ evs1) = [IP_API_URL, tokenUrl e]"
        using u3 e1(2) by simp
      ultimately show ?thesis
        by (intro exI [of _ "(evs0 @ [Fetch ipRequest, Fetch ?req]) @ evs1"]) simp
    qed
  qed
qed

lemma getSellerData_trace:
  "\<exists>evs. trace (snd (getSellerData e rid s)) = trace s @ evs \<and>
         set (fetched_urls evs) \<subseteq> {IP_API_URL, tokenUrl e, sellerUrl e (finalRequestId rid)}"
proof -
  obtain evs0 where g: "trace (snd (getGuestToken e s)) = trace s @ evs0"
      "set (fetched_urls evs0) \<subseteq> {IP_API_URL, tokenUrl e}"
    using getGuestToken_trace by blast
  obtain res s1 where gt: "getGuestToken e s = (res, s1)" by (cases "getGuestToken e s")
  then have s1: "trace s1 = trace s @ evs0" using g(1) by simp
  show ?thesis
  proof (cases res)
    case (Inl err)
    have "snd (getSellerData e rid s) = s1"
      using getSellerData_without_token [of e s err s1 rid] gt Inl by simp
    with s1 g(2) show ?thesis by auto
  next
    case (Inr tok)
    let ?req = "sellerRequest e (finalRequestId rid) tok"
    have "snd (getSellerData e rid s) = log_event (Fetch ?req) s1"
      using getSellerData_with_token [of e s tok s1 rid] gt Inr by simp
    then have "trace (snd (getSellerData e rid s)) = trace s @ (evs0 @ [Fetch ?req])"
      by (simp add: s1)
    moreover have "set (fetched_urls (evs0 @ [Fetch ?req]))
        \<subseteq> {IP_API_URL, tokenUrl e, sellerUrl e (finalRequestId rid)}"
      using g(2) by (auto simp: sellerRequest_def)
    ultimately show ?thesis by blast
  qed
qed

lemma amazonUrl_distinct:
  "amazonUrl e \<noteq> IP_API_URL" "amazonUrl e \<noteq> tokenUrl e" "amazonUrl e \<noteq> sellerUrl e fid"
proof -
  have "last (amazonUrl e) = CHR ''s''" by (simp add: amazonUrl_def)
  moreover have "last IP_API_URL = CHR ''n''" by (simp add: IP_API_URL_def)
  ultimately show "amazonUrl e \<noteq> IP_API_URL" by auto
  show "amazonUrl e \<noteq> tokenUrl e" by (simp add: amazonUrl_def tokenUrl_def)
  show "amazonUrl e \<noteq> sellerUrl e fid" by (simp add: amazonUrl_def sellerUrl_def)
qed

lemma getProducts_never_fetches_catalog:
  "\<exists>evs. trace (snd (getProducts e s)) = trace s @ evs \<and> amazonUrl e \<notin> set (fetched_urls evs)"
proof -
  obtain evs where t: "trace (snd (getSellerData e None s)) = trace s @ evs"
    and u: "set (fetched_urls evs) \<subseteq> {IP_API_URL, tokenUrl e, sellerUrl e (finalRequestId None)}"
    using getSellerData_trace by blast
  have "amazonUrl e \<notin> set (fetched_urls evs)"
    using u amazonUrl_distinct by auto
  with t show ?thesis by (auto simp: getProducts_via_seller)
qed

lemma isArray_iff: "isArray d \<longleftrightarrow> (\<exists>xs. d = Arr xs)"
  by (cases d) simp_all

lemma seller_of_response_Inr:
  assumes "seller_of_response e r = Inr d"
  shows "resp_ok r" and "JSON_parse e (response_text r) = Some d"
    and "\<exists>first rest. get_prop d ''data'' = Inr (Arr (first # rest)) \<and> seller_log_lines first = Inr ()"
proof -
  show ok: "resp_ok r" using assms by (auto simp: seller_of_response_def split: if_splits)
  obtain data where p: "JSON_parse e (response_text r) = Some data"
    using assms ok by (auto simp: seller_of_response_def split: option.splits)
  obtain dd where dd: "get_prop data ''data'' = Inr dd"
    using assms ok p by (cases "get_prop data ''data''") (auto simp: seller_of_response_def)
  have valid: "truthy dd \<and> isArray dd \<and> get_prop dd ''length'' \<noteq> Inr (Num (Fin 0))"
    using assms ok p dd by (auto simp: seller_of_response_def split: if_splits)
  then obtain xs where xs: "dd = Arr xs" by (auto simp: isArray_iff)
  with valid have "xs \<noteq> []" by auto
  then obtain first rest where fr: "xs = first # rest" by (cases xs) auto
  have res: "then_do (seller_log_lines first) (\<lambda>_. Inr data) = Inr d"
    using assms ok p dd xs fr by (simp add: seller_of_response_def)
  then have "seller_log_lines first = Inr ()" "data = d"
    by (cases "seller_log_lines first"; simp)+
  with p dd xs fr show "JSON_parse e (response_text r) = Some d"
    and "\<exists>first rest. get_prop d ''data'' = Inr (Arr (first # rest)) \<and> seller_log_lines first = Inr ()"
    by auto
qed

lemma then_do_Inr_iff: "then_do m f = Inr y \<longleftrightarrow> (\<exists>x. m = Inr x \<and> f x = Inr y)"
  by (cases m) simp_all

lemma seller_log_lines_Inr:
  assumes "seller_log_lines first = Inr ()"
  shows "\<exists>ps. opt_prop (opt_prop first ''amazon_data'') ''products'' = Arr ps"
proof -
  from assms obtain ad prods where
    ad: "get_prop first ''amazon_data'' = Inr ad" and
    pr: "get_prop ad ''products'' = Inr prods" and
    arr: "(case prods of Arr ps \<Rightarrow> if list_all (\<lambda>p. \<not> isl (get_prop p ''asin'')) ps then Inr ()
                    else Inl TypeError | _ \<Rightarrow> Inl TypeError) = Inr ()"
    unfolding seller_log_lines_def then_do_Inr_iff by blast
  from arr obtain ps where "prods = Arr ps" by (cases prods) simp_all
  with ad pr show ?thesis by (simp add: opt_prop_def)
qed

lemma products_of_entry_Arr:
  assumes "opt_prop (opt_prop first ''amazon_data'') ''products'' = Arr ps"
    and "products_of_entry first = Inr r"
  shows "convertAmazonDataToProducts (Arr ps) = Inr (products r) \<and> total r = length (products r)"
proof (cases ps)
  case Nil
  with assms have "r = productsResponse []"
    by (simp add: products_of_entry_def)
  then show ?thesis
    by (simp add: Nil productsResponse_def convertAmazonDataToProducts_def)
next
  case (Cons p ps')
  with assms have "then_do (convertAmazonDataToProducts (Arr ps))
      (\<lambda>products. Inr (productsResponse products)) = Inr r"
    by (simp add: products_of_entry_def)
  then obtain out where "convertAmazonDataToProducts (Arr ps) = Inr out" "r = productsResponse out"
    unfolding then_do_Inr_iff by auto
  then show ?thesis by (simp add: productsResponse_def)
qed

text \<open>
  Claim C1, as amended. Whenever \<^verbatim>\<open>getProducts\<close> returns, the chain that ran is token,
  seller lookup, normalize: a token was obtained, the seller endpoint was fetched with
  that token in the \<^verbatim>\<open>authorization\<close> header and that fetch is the last event of the
  run, no request of the run went to the product-catalog endpoint, and the products
  returned are the normalizer's output on the product list of the first entry of the
  seller response, with \<^verbatim>\<open>total\<close> their number.
\<close>

theorem getProducts_reads_seller_response:
  assumes "getProducts e s = (Inr r, s')"
  shows "\<exists>tok s1 response data first rest ps.
           getGuestToken e s = (Inr tok, s1) \<and>
           map_of (req_headers (sellerRequest e (finalRequestId None) tok)) ''authorization'' = Some tok \<and>
           network e (sellerRequest e (finalRequestId None) tok) = Resolved response \<and>
           s' = log_event (Fetch (sellerRequest e (finalRequestId None) tok)) s1 \<and>
           JSON_parse e (response_text response) = Some data \<and>
           get_prop data ''data'' = Inr (Arr (first # rest)) \<and>
           opt_prop (opt_prop first ''amazon_data'') ''products'' = Arr ps \<and>
           convertAmazonDataToProducts (Arr ps) = Inr (products r) \<and>
           total r = length (products r) \<and>
           (\<exists>evs. trace s' = trace s @ evs \<and> amazonUrl e \<notin> set (fetched_urls evs))"
proof -
  from assms have s': "s' = snd (getSellerData e None s)"
    by (simp add: getProducts_via_seller)
  from assms obtain d where d: "fst (getSellerData e None s) = Inr d" and pd: "products_of_seller d = Inr r"
    by (cases "fst (getSellerData e None s)") (simp_all add: getProducts_via_seller)
  obtain res s1 where gt: "getGuestToken e s = (res, s1)" by (cases "getGuestToken e s")
  obtain tok where tok: "res = Inr tok"
    using d getSellerData_without_token [of e s _ s1 None] gt by (cases res) auto
  let ?req = "sellerRequest e (finalRequestId None) tok"
  note gs = getSellerData_with_token [of e s tok s1 None]
  obtain response where resp: "network e ?req = Resolved response"
    using d gs gt tok by (cases "network e ?req") auto
  have sr: "seller_of_response e response = Inr d" using d gs gt tok resp by simp
  have st: "s' = log_event (Fetch ?req) s1" using s' gs gt tok by simp
  note parts = seller_of_response_Inr [OF sr]
  from parts(3) obtain first rest where
    fr: "get_prop d ''data'' = Inr (Arr (first # rest))" and ll: "seller_log_lines first = Inr ()"
    by blast
  obtain ps where ps: "opt_prop (opt_prop first ''amazon_data'') ''products'' = Arr ps"
    using seller_log_lines_Inr [OF ll] by blast
  have "products_of_entry first = Inr r"
    using pd products_of_seller_first [OF fr] by simp
  note conv = products_of_entry_Arr [OF ps this]
  have hdr: "map_of (req_headers ?req) ''authorization'' = Some tok"
    by (simp add: sellerRequest_def)
  obtain evs where "trace (snd (getProducts e s)) = trace s @ evs"
      "amazonUrl e \<notin> set (fetched_urls evs)"
    using getProducts_never_fetches_catalog by blast
  then have tr: "\<exists>evs. trace s' = trace s @ evs \<and> amazonUrl e \<notin> set (fetched_urls evs)"
    using assms by auto
  from gt tok hdr resp st parts(2) fr ps conv tr show ?thesis by blast
qed

lemma seller_product_converted:
  "convertAmazonDataToProducts (Arr [seller_product]) = Inr (products seller_catalog)"
proof -
  have pr: "priceString (Str ''$19.99'') = Inr ''19.99''"
    by (simp add: priceString_def startsWith_def)
  have v: "(of_nat (digits_val ''19'') + of_nat (digits_val ''99'') / 10 ^ length ''99'' :: rat)
      = 1999 / 100"
    by (simp add: digits_val_def)
  have "parseFloat (''19'' @ ''.'' @ ''99'')
      = to_double (of_nat (digits_val ''19'') + of_nat (digits_val ''99'') / 10 ^ length ''99'')"
    by (rule parseFloat_decimal) (simp_all add: is_digit_def)
  then have "parseFloat (''19'' @ ''.'' @ ''99'') = to_double (1999 / 100)"
    by (simp only: v)
  then have pf: "parseFloat ''19.99'' = to_double (1999 / 100)" by simp
  have av: "availability_inStock (Str ''In Stock'') = Inr True"
    by (simp add: availability_inStock_def toLowerCase_def startsWith_def)
  have nm: "decimal (0 + 1) = ''1''" by (simp add: digit_char_def)
  have "convertProduct seller_product 0 = Inr (hd (products seller_catalog))"
    by (simp add: convertProduct_def seller_product_def opt_prop_def pr pf av nm digit_char_def
        or_zero_to_double placeholder_image_samples seller_catalog_def productsResponse_def)
  then show ?thesis
    by (simp add: convertAmazonDataToProducts_def seller_catalog_def productsResponse_def)
qed

lemma seller_value_products: "products_of_seller seller_value = Inr seller_catalog"
proof -
  have "products_of_entry (seller_entry (Obj [(''products'', Arr [seller_product])]))
      = Inr (productsResponse (products seller_catalog))"
    by (simp add: products_of_entry_def seller_entry_def opt_prop_def seller_product_converted)
  moreover have "productsResponse (products seller_catalog) = seller_catalog"
    by (simp add: seller_catalog_def productsResponse_def)
  ultimately show ?thesis
    by (simp add: products_of_seller_def seller_value_def)
qed

lemma good_env_seller: "good_env = seller_env (ok_response seller_text)"
  by (simp add: good_env_def seller_env_def)

lemma good_env_products: "fst (getProducts good_env sample_state) = Inr seller_catalog"
proof -
  have "get_prop seller_value ''data''
      = Inr (Arr (seller_entry (Obj [(''products'', Arr [seller_product])]) # []))"
    by (simp add: seller_value_def)
  from seller_env_result [OF sample_parse_values(4) this]
  have "fst (getSellerData good_env None sample_state) = Inr seller_value"
    by (simp add: good_env_seller seller_entry_log_lines)
  then show ?thesis by (simp add: getProducts_via_seller seller_value_products)
qed

text \<open>The good world: one product, taken from the seller response.\<close>

theorem getProducts_reads_seller_response_witness:
  "getProducts good_env sample_state = (Inr seller_catalog, snd (getProducts good_env sample_state)) \<and>
   (\<exists>tok s1. getGuestToken good_env sample_state = (Inr tok, s1) \<and>
      snd (getProducts good_env sample_state)
        = log_event (Fetch (sellerRequest good_env (finalRequestId None) tok)) s1) \<and>
   convertAmazonDataToProducts (Arr [seller_product]) = Inr (products seller_catalog) \<and>
   (\<exists>evs. trace (snd (getProducts good_env sample_state)) = trace sample_state @ evs \<and>
      amazonUrl good_env \<notin> set (fetched_urls evs))"
proof -
  have h: "getProducts good_env sample_state
             = (Inr seller_catalog, snd (getProducts good_env sample_state))"
    using good_env_products by (simp add: prod_eq_iff)
  from getProducts_reads_seller_response [OF h] obtain tok s1 response data first rest ps where
    gt: "getGuestToken good_env sample_state = (Inr tok, s1)"
    and net: "network good_env (sellerRequest good_env (finalRequestId None) tok) = Resolved response"
    and st: "snd (getProducts good_env sample_state)
               = log_event (Fetch (sellerRequest good_env (finalRequestId None) tok)) s1"
    and parse: "JSON_parse good_env (response_text response) = Some data"
    and fr: "get_prop data ''data'' = Inr (Arr (first # rest))"
    and ps: "opt_prop (opt_prop first ''amazon_data'') ''products'' = Arr ps"
    and conv: "convertAmazonDataToProducts (Arr ps) = Inr (products seller_catalog)"
    and tr: "\<exists>evs. trace (snd (getProducts good_env sample_state)) = trace sample_state @ evs \<and>
               amazonUrl good_env \<notin> set (fetched_urls evs)"
    by blast
  have "response = \<lparr> resp_status = 200, resp_statusText = ''OK'', resp_body = Some seller_text \<rparr>"
    using net by (simp add: good_env_def sample_env_answers ok_response_def)
  then have "data = seller_value"
    using parse by (simp add: response_text_def good_env_def sample_env_parts sample_parse_values)
  then have "first = seller_entry (Obj [(''products'', Arr [seller_product])])"
    using fr by (simp add: seller_value_def)
  then have "ps = [seller_product]"
    using ps by (simp add: seller_entry_def opt_prop_def)
  with conv have c: "convertAmazonDataToProducts (Arr [seller_product]) = Inr (products seller_catalog)"
    by simp
  from h gt st c tr show ?thesis by blast
qed

text \<open>
  The claim as written fails in the good world. The seller lookup succeeds with the
  identifier \<^verbatim>\<open>B071DR7GLW\<close>; \<^verbatim>\<open>getProducts\<close> returns that product, normalized from the
  seller response, and no request of the run goes to the catalog endpoint, although
  that endpoint would have answered the POST of this identifier, with another product.
  The POST exists in \<^verbatim>\<open>getAmazonProductData\<close>, which only \<^verbatim>\<open>getProductsDirect\<close>
  calls.
\<close>

theorem getProducts_catalog_fetch_counterexample:
  "fst (getProducts good_env sample_state) = Inr seller_catalog \<and>
   map id_field (products seller_catalog) = [Str ''B071DR7GLW''] \<and>
   amazonUrl good_env \<notin> set (fetched_urls (trace (snd (getProducts good_env sample_state)))) \<and>
   network good_env (amazonRequest good_env ''tok-1'' [''B071DR7GLW'']) = ok_response catalog_text \<and>
   sample_parse catalog_text
     = Some (Obj [(''products'', Arr [Obj [(''asin'', Str ''B0CATALOG1''),
                                           (''product_price'', Str ''$1.00'')]]),
                  (''total'', Num (Fin 1))])"
proof -
  obtain evs where "trace (snd (getProducts good_env sample_state)) = trace sample_state @ evs"
    and "amazonUrl good_env \<notin> set (fetched_urls evs)"
    using getProducts_never_fetches_catalog by blast
  then have "amazonUrl good_env \<notin> set (fetched_urls (trace (snd (getProducts good_env sample_state))))"
    by (simp add: sample_state_def)
  moreover have "map id_field (products seller_catalog) = [Str ''B071DR7GLW'']"
    by (simp add: seller_catalog_def productsResponse_def)
  moreover have "network good_env (amazonRequest good_env ''tok-1'' [''B071DR7GLW''])
      = ok_response catalog_text"
    by (simp add: good_env_def sample_env_answers)
  moreover have "sample_parse catalog_text
     = Some (Obj [(''products'', Arr [Obj [(''asin'', Str ''B0CATALOG1''),
                                           (''product_price'', Str ''$1.00'')]]),
                  (''total'', Num (Fin 1))])"
    by (simp add: sample_parse_def sample_texts)
  ultimately show ?thesis using good_env_products by blast
qed

end
